theory Spec2Isabelle
  imports Complex_Main "HOL-Library.Word"
begin

text \<open>
  A model of the navigation and scaling logic of the iPhone browser emulator: the URL
  utilities, the composable \<open>useNavigation\<close>, the store \<open>useBrowserStore\<close> and
  \<open>calculateScale\<close> of \<open>useViewport\<close>. Refs and reactive objects are records, an action
  takes the state and returns the new one, and what the TypeScript leaves to the
  JavaScript runtime (strings, arrays, numbers) is modelled first.
\<close>

section \<open>JavaScript values\<close>

subsection \<open>Strings\<close>

text \<open>
  A JavaScript string is a sequence of 16-bit code units. \<open>js\<close> turns an ASCII literal
  into such a sequence.
\<close>

type_synonym jsstring = "16 word list"

definition js :: "string \<Rightarrow> jsstring" where
  "js s = map of_char s"

text \<open>
  \<open>String.prototype.trim\<close> removes the code units of WhiteSpace and LineTerminator
  (ECMAScript: TAB, LF, VT, FF, CR, SP, NBSP, U+1680, U+2000..U+200A, U+2028, U+2029,
  U+202F, U+205F, U+3000, U+FEFF; all of them single code units) from both ends.
\<close>

definition isWhiteSpace :: "16 word \<Rightarrow> bool" where
  "isWhiteSpace c =
     (c \<in> set [0x09, 0x0A, 0x0B, 0x0C, 0x0D, 0x20, 0xA0, 0x1680, 0x2028, 0x2029,
               0x202F, 0x205F, 0x3000, 0xFEFF]
      \<or> (0x2000 \<le> c \<and> c \<le> 0x200A))"

definition trim :: "jsstring \<Rightarrow> jsstring" where
  "trim s = rev (dropWhile isWhiteSpace (rev (dropWhile isWhiteSpace s)))"

text \<open>
  The regular expression \<^verbatim>\<open>/^https?:\/\//i\<close>, tested against a string. Without the
  \<open>u\<close> flag the \<open>i\<close> flag compares upper-cased code units and never maps a code unit
  above 127 to one below, so the letters h, t, p, s match exactly their two ASCII cases.
\<close>

definition asciiLower :: "16 word \<Rightarrow> 16 word" where
  "asciiLower c = (if 0x41 \<le> c \<and> c \<le> 0x5A then c + 0x20 else c)"

definition startsWithNoCase :: "jsstring \<Rightarrow> jsstring \<Rightarrow> bool" where
  "startsWithNoCase p s = (map asciiLower (take (length p) s) = p)"

definition hasHttpScheme :: "jsstring \<Rightarrow> bool" where
  "hasHttpScheme s = (startsWithNoCase (js ''http://'') s \<or> startsWithNoCase (js ''https://'') s)"

subsection \<open>Arrays\<close>

text \<open>
  \<open>xs[i]\<close> read from an array is \<open>undefined\<close> (here \<open>None\<close>) outside \<open>0 .. length - 1\<close>;
  \<open>xs.slice(0, end)\<close> counts a negative \<open>end\<close> from the end of the array and clamps.
\<close>

definition js_index :: "'a list \<Rightarrow> int \<Rightarrow> 'a option" where
  "js_index xs i = (if 0 \<le> i \<and> i < int (length xs) then Some (xs ! nat i) else None)"

definition slice0 :: "'a list \<Rightarrow> int \<Rightarrow> 'a list" where
  "slice0 xs e =
     (let len = int (length xs);
          final = (if e < 0 then max (len + e) 0 else min e len)
      in take (nat final) xs)"

subsection \<open>Numbers\<close>

text \<open>
  A JavaScript number is an IEEE 754 double: NaN, the two infinities, or a finite value,
  kept here as the real number it denotes (the two zeros are identified, as \<open>===\<close> does).
  Comparison with NaN is false; \<open>Math.max\<close> and \<open>Math.min\<close> return NaN when an argument
  is NaN.
\<close>

datatype jsnum = NaN | NegInf | Fin real | PosInf

fun jle :: "jsnum \<Rightarrow> jsnum \<Rightarrow> bool" where
  "jle NaN b = False"
| "jle a NaN = False"
| "jle NegInf b = True"
| "jle a PosInf = True"
| "jle (Fin a) (Fin b) = (a \<le> b)"
| "jle (Fin a) NegInf = False"
| "jle PosInf b = False"

definition jge :: "jsnum \<Rightarrow> jsnum \<Rightarrow> bool" where
  "jge a b = jle b a"

definition jmax :: "jsnum \<Rightarrow> jsnum \<Rightarrow> jsnum" where
  "jmax a b = (if a = NaN \<or> b = NaN then NaN else if jle a b then b else a)"

definition jmin :: "jsnum \<Rightarrow> jsnum \<Rightarrow> jsnum" where
  "jmin a b = (if a = NaN \<or> b = NaN then NaN else if jle a b then a else b)"

text \<open>
  Arithmetic computes the exact result and rounds it to a double. The rounding is a
  parameter \<open>rnd\<close> of the operations, so that a fact that does not depend on it is
  proved for every rounding. The rounding of JavaScript is \<open>binary64\<close>: round to the
  nearest double, ties to the even significand. A double in the binade
  \<open>2^e \<le> |x| < 2^(e+1)\<close> is a multiple of \<open>2^(e-52)\<close>; below \<open>2^-1022\<close> the spacing stays
  \<open>2^-1074\<close> (subnormal numbers), and a result of magnitude \<open>2^1024\<close> is an infinity.
\<close>

type_synonym rounding = "real \<Rightarrow> jsnum"

definition roundHalfEven :: "real \<Rightarrow> int" where
  "roundHalfEven z =
     (let f = \<lfloor>z\<rfloor>
      in if z - of_int f < 1 / 2 then f
         else if 1 / 2 < z - of_int f then f + 1
         else if even f then f else f + 1)"

definition overflowBound :: real where
  "overflowBound = 2 ^ 1024"

definition binary64 :: rounding where
  "binary64 x =
     (if x = 0 then Fin 0
      else
        let e = max \<lfloor>log 2 \<bar>x\<bar>\<rfloor> (- 1022);
            q = 2 powi (e - 52);
            y = of_int (roundHalfEven (x / q)) * q
        in if overflowBound \<le> \<bar>y\<bar> then (if 0 < x then PosInf else NegInf) else Fin y)"

fun jsub :: "rounding \<Rightarrow> jsnum \<Rightarrow> jsnum \<Rightarrow> jsnum" where
  "jsub rnd NaN b = NaN"
| "jsub rnd a NaN = NaN"
| "jsub rnd (Fin a) (Fin b) = rnd (a - b)"
| "jsub rnd PosInf PosInf = NaN"
| "jsub rnd NegInf NegInf = NaN"
| "jsub rnd PosInf b = PosInf"
| "jsub rnd NegInf b = NegInf"
| "jsub rnd (Fin a) PosInf = NegInf"
| "jsub rnd (Fin a) NegInf = PosInf"

definition jneg :: "jsnum \<Rightarrow> jsnum" where
  "jneg a = (case a of NaN \<Rightarrow> NaN | NegInf \<Rightarrow> PosInf | PosInf \<Rightarrow> NegInf | Fin x \<Rightarrow> Fin (- x))"

definition mulInf :: "jsnum \<Rightarrow> real \<Rightarrow> jsnum" where
  \<comment> \<open>an infinity times a finite value\<close>
  "mulInf i x = (if x = 0 then NaN else if 0 < x then i else jneg i)"

fun jmul :: "rounding \<Rightarrow> jsnum \<Rightarrow> jsnum \<Rightarrow> jsnum" where
  "jmul rnd NaN b = NaN"
| "jmul rnd a NaN = NaN"
| "jmul rnd (Fin a) (Fin b) = rnd (a * b)"
| "jmul rnd (Fin a) b = mulInf b a"
| "jmul rnd a (Fin b) = mulInf a b"
| "jmul rnd a b = (if a = b then PosInf else NegInf)"

text \<open>
  Division by a zero does not throw in JavaScript (it gives an infinity or NaN, by the
  signs of the operands). The model reports it instead, as \<open>None\<close>, so that "no division
  by zero is performed" is a statement about the result.
\<close>

fun jdiv :: "rounding \<Rightarrow> jsnum \<Rightarrow> jsnum \<Rightarrow> jsnum option" where
  "jdiv rnd a (Fin b) =
     (if b = 0 then None
      else case a of
             NaN \<Rightarrow> Some NaN
           | Fin x \<Rightarrow> Some (rnd (x / b))
           | PosInf \<Rightarrow> Some (if 0 < b then PosInf else NegInf)
           | NegInf \<Rightarrow> Some (if 0 < b then NegInf else PosInf))"
| "jdiv rnd a NaN = Some NaN"
| "jdiv rnd (Fin x) b = Some (Fin 0)"
| "jdiv rnd a b = Some NaN"

section \<open>URL utilities (src/utils/url.ts)\<close>

definition normaliseUrl :: "jsstring \<Rightarrow> jsstring" where
  "normaliseUrl url =
     (let trimmed = trim url
      in if trimmed = [] then []
         else if hasHttpScheme trimmed then trimmed
         else js ''https://'' @ trimmed)"

text \<open>
  \<open>new URL(s)\<close> is the browser's parser, not code of the repository. It is a parameter:
  a function giving the \<open>protocol\<close> of the parsed URL, or \<open>None\<close> where the constructor
  throws.
\<close>

type_synonym url_parser = "jsstring \<Rightarrow> jsstring option"

definition isValidUrl :: "url_parser \<Rightarrow> jsstring \<Rightarrow> bool" where
  "isValidUrl parseUrl url =
     (let normalised = normaliseUrl url
      in if normalised = [] then False
         else case parseUrl normalised of
                None \<Rightarrow> False
              | Some protocol \<Rightarrow> protocol \<in> set [js ''http:'', js ''https:''])"

text \<open>
  An instance of the parameter for running the model on concrete inputs: it accepts a
  lower-case \<open>http://\<close> or \<open>https://\<close> followed by a non-empty rest without a space, and
  rejects everything else. The browser's parser decides the same way on the strings
  used below.
\<close>

definition sampleParser :: url_parser where
  "sampleParser s =
     (if take 8 s = js ''https://'' \<and> drop 8 s \<noteq> [] \<and> 0x20 \<notin> set (drop 8 s)
      then Some (js ''https:'')
      else if take 7 s = js ''http://'' \<and> drop 7 s \<noteq> [] \<and> 0x20 \<notin> set (drop 7 s)
      then Some (js ''http:'')
      else None)"

section \<open>Navigation types (src/types/navigation.ts)\<close>

datatype NavigationErrorType = Cors | InvalidUrl | Network | Blocked | Timeout | Ssl | Unknown

typedecl js_Error

record NavigationError =
  type :: NavigationErrorType
  message :: jsstring
  error_url :: "jsstring option"
  error_timestamp :: "jsnum option"
  recoverable :: "bool option"
  originalError :: "js_Error option"

record NavigationEntry =
  url :: jsstring
  title :: "jsstring option"
  timestamp :: int
  favicon :: "jsstring option"
  scrollPosition :: "(jsnum \<times> jsnum) option"

record NavigationState =
  currentUrl :: jsstring
  history :: "NavigationEntry list"
  historyIndex :: int
  isLoading :: bool
  loadProgress :: jsnum
  error :: "NavigationError option"
  canGoBack :: bool
  canGoForward :: bool

record NavigationHistory =
  entries :: "jsstring list"
  currentIndex :: int

section \<open>The composable useNavigation (src/composables/useDeviceConfig.ts, lines 745 to 977)\<close>

text \<open>
  The refs of the composable, with the prefix \<open>nav_\<close> where \<open>NavigationState\<close> has a
  field of the same name (the computed \<open>canGoBack\<close> and \<open>canGoForward\<close>, and the inner
  \<open>normaliseUrl\<close> and \<open>isValidUrl\<close>, likewise). \<open>nav_currentUrl\<close> is \<open>None\<close> when the ref
  holds \<open>undefined\<close>, which an array read outside the entries would store.
\<close>

record useNavigation =
  nav_history :: NavigationHistory
  nav_currentUrl :: "jsstring option"
  nav_isLoading :: bool
  nav_loadProgress :: jsnum
  nav_error :: "NavigationError option"

definition nav_initial :: useNavigation where
  "nav_initial =
     \<lparr>nav_history = \<lparr>entries = [], currentIndex = -1\<rparr>,
      nav_currentUrl = Some [],
      nav_isLoading = False,
      nav_loadProgress = Fin 0,
      nav_error = None\<rparr>"

definition nav_canGoBack :: "useNavigation \<Rightarrow> bool" where
  "nav_canGoBack n = (currentIndex (nav_history n) > 0)"

definition nav_canGoForward :: "useNavigation \<Rightarrow> bool" where
  "nav_canGoForward n =
     (currentIndex (nav_history n) < int (length (entries (nav_history n))) - 1)"

definition nav_normaliseUrl :: "jsstring \<Rightarrow> jsstring" where
  "nav_normaliseUrl u =
     (let normalised = trim u
      in if \<not> hasHttpScheme normalised then js ''https://'' @ normalised else normalised)"

definition nav_isValidUrl :: "url_parser \<Rightarrow> jsstring \<Rightarrow> bool" where
  "nav_isValidUrl parseUrl u =
     (case parseUrl (nav_normaliseUrl u) of
        None \<Rightarrow> False
      | Some protocol \<Rightarrow> protocol \<in> set [js ''http:'', js ''https:''])"

definition invalidUrlError :: NavigationError where
  "invalidUrlError =
     \<lparr>type = InvalidUrl,
      message = js ''Please enter a valid URL (e.g., https://example.com)'',
      error_url = None,
      error_timestamp = None,
      recoverable = None,
      originalError = None\<rparr>"

definition navigate :: "url_parser \<Rightarrow> jsstring \<Rightarrow> useNavigation \<Rightarrow> useNavigation" where
  "navigate parseUrl u n =
     (let normalisedUrl = nav_normaliseUrl u
      in if \<not> nav_isValidUrl parseUrl u then n\<lparr>nav_error := Some invalidUrlError\<rparr>
         else
           let newEntries =
                 slice0 (entries (nav_history n)) (currentIndex (nav_history n) + 1)
                   @ [normalisedUrl]
           in n\<lparr>nav_error := None,
                 nav_isLoading := True,
                 nav_loadProgress := Fin 0,
                 nav_currentUrl := Some normalisedUrl,
                 nav_history :=
                   \<lparr>entries = newEntries, currentIndex = int (length newEntries) - 1\<rparr>\<rparr>)"

definition goBack :: "useNavigation \<Rightarrow> useNavigation" where
  "goBack n =
     (if \<not> nav_canGoBack n then n
      else
        let i = currentIndex (nav_history n) - 1
        in n\<lparr>nav_history := (nav_history n)\<lparr>currentIndex := i\<rparr>,
              nav_currentUrl := js_index (entries (nav_history n)) i,
              nav_error := None,
              nav_isLoading := True,
              nav_loadProgress := Fin 0\<rparr>)"

definition goForward :: "useNavigation \<Rightarrow> useNavigation" where
  "goForward n =
     (if \<not> nav_canGoForward n then n
      else
        let i = currentIndex (nav_history n) + 1
        in n\<lparr>nav_history := (nav_history n)\<lparr>currentIndex := i\<rparr>,
              nav_currentUrl := js_index (entries (nav_history n)) i,
              nav_error := None,
              nav_isLoading := True,
              nav_loadProgress := Fin 0\<rparr>)"

definition refresh :: "useNavigation \<Rightarrow> useNavigation" where
  "refresh n =
     (if nav_currentUrl n = None \<or> nav_currentUrl n = Some [] then n
      else n\<lparr>nav_error := None, nav_isLoading := True, nav_loadProgress := Fin 0\<rparr>)"

definition stop :: "useNavigation \<Rightarrow> useNavigation" where
  "stop n = n\<lparr>nav_isLoading := False, nav_loadProgress := Fin 100\<rparr>"

definition setProgress :: "jsnum \<Rightarrow> useNavigation \<Rightarrow> useNavigation" where
  "setProgress progress n = n\<lparr>nav_loadProgress := jmax (Fin 0) (jmin (Fin 100) progress)\<rparr>"

definition onLoadComplete :: "useNavigation \<Rightarrow> useNavigation" where
  "onLoadComplete n = n\<lparr>nav_isLoading := False, nav_loadProgress := Fin 100, nav_error := None\<rparr>"

definition onLoadError :: "NavigationError \<Rightarrow> useNavigation \<Rightarrow> useNavigation" where
  "onLoadError err n = n\<lparr>nav_isLoading := False, nav_loadProgress := Fin 0, nav_error := Some err\<rparr>"

definition clear :: "useNavigation \<Rightarrow> useNavigation" where
  "clear n =
     n\<lparr>nav_history := \<lparr>entries = [], currentIndex = -1\<rparr>,
       nav_currentUrl := Some [],
       nav_isLoading := False,
       nav_loadProgress := Fin 0,
       nav_error := None\<rparr>"

text \<open>The actions the composable returns, and a run of them from the initial refs.\<close>

datatype nav_action =
    Navigate jsstring
  | GoBack
  | GoForward
  | Refresh
  | Stop
  | SetProgress jsnum
  | OnLoadComplete
  | OnLoadError NavigationError
  | Clear

fun nav_apply :: "url_parser \<Rightarrow> useNavigation \<Rightarrow> nav_action \<Rightarrow> useNavigation" where
  "nav_apply parseUrl n (Navigate u) = navigate parseUrl u n"
| "nav_apply parseUrl n GoBack = goBack n"
| "nav_apply parseUrl n GoForward = goForward n"
| "nav_apply parseUrl n Refresh = refresh n"
| "nav_apply parseUrl n Stop = stop n"
| "nav_apply parseUrl n (SetProgress p) = setProgress p n"
| "nav_apply parseUrl n OnLoadComplete = onLoadComplete n"
| "nav_apply parseUrl n (OnLoadError err) = onLoadError err n"
| "nav_apply parseUrl n Clear = clear n"

definition nav_run :: "url_parser \<Rightarrow> nav_action list \<Rightarrow> useNavigation" where
  "nav_run parseUrl acts = foldl (nav_apply parseUrl) nav_initial acts"

section \<open>The store useBrowserStore (src/main.ts, lines 51 to 262)\<close>

text \<open>
  The store keeps one \<open>NavigationState\<close>; its other refs (toolbar, URL bar mode, scroll
  and zoom) are never read or written by the actions below. The actions index the
  history array. Outside the array JavaScript either throws a TypeError (reading \<open>.url\<close>
  of \<open>undefined\<close>) or writes past the end and leaves holes in the array, which are no
  \<open>NavigationEntry\<close>; both leave the state space of the model and are results of their
  own. \<open>store_run_inv\<close> below shows that no run from the initial state gets there.
  \<open>navigate\<close>, \<open>goBack\<close> and \<open>goForward\<close> carry the prefix \<open>store_\<close>.
\<close>

datatype store_fault = TypeError | SparseArray

definition store_initial :: NavigationState where
  "store_initial =
     \<lparr>currentUrl = js ''about:blank'',
      history = [],
      historyIndex = -1,
      isLoading = False,
      loadProgress = Fin 0,
      error = None,
      canGoBack = False,
      canGoForward = False\<rparr>"

text \<open>
  \<open>replace\<close> is \<open>options?.replace\<close> as a truth value, \<open>now\<close> the value of \<open>Date.now()\<close>.
\<close>

definition newEntry :: "jsstring \<Rightarrow> int \<Rightarrow> NavigationEntry" where
  "newEntry u now =
     \<lparr>url = u, title = None, timestamp = now, favicon = None, scrollPosition = None\<rparr>"

definition store_navigate ::
  "int \<Rightarrow> jsstring \<Rightarrow> bool \<Rightarrow> NavigationState \<Rightarrow> store_fault + NavigationState" where
  "store_navigate now u replace s =
     (let entry = newEntry u now;
          finish = (\<lambda>s'. s'\<lparr>currentUrl := u,
                             isLoading := True,
                             loadProgress := Fin 0,
                             error := None,
                             canGoBack := (historyIndex s' > 0),
                             canGoForward := False\<rparr>)
      in if replace \<and> historyIndex s \<ge> 0 then
           (if historyIndex s < int (length (history s))
            then Inr (finish (s\<lparr>history := (history s)[nat (historyIndex s) := entry]\<rparr>))
            else Inl SparseArray)
         else
           let h = slice0 (history s) (historyIndex s + 1) @ [entry]
           in Inr (finish (s\<lparr>history := h, historyIndex := int (length h) - 1\<rparr>)))"

definition store_goBack :: "NavigationState \<Rightarrow> store_fault + NavigationState" where
  "store_goBack s =
     (if historyIndex s > 0 then
        (let i = historyIndex s - 1
         in case js_index (history s) i of
              None \<Rightarrow> Inl TypeError
            | Some e \<Rightarrow>
                Inr (s\<lparr>historyIndex := i,
                       currentUrl := url e,
                       canGoBack := (i > 0),
                       canGoForward := True,
                       isLoading := True,
                       loadProgress := Fin 0,
                       error := None\<rparr>))
      else Inr s)"

definition store_goForward :: "NavigationState \<Rightarrow> store_fault + NavigationState" where
  "store_goForward s =
     (if historyIndex s < int (length (history s)) - 1 then
        (let i = historyIndex s + 1
         in case js_index (history s) i of
              None \<Rightarrow> Inl TypeError
            | Some e \<Rightarrow>
                Inr (s\<lparr>historyIndex := i,
                       currentUrl := url e,
                       canGoBack := True,
                       canGoForward := (i < int (length (history s)) - 1),
                       isLoading := True,
                       loadProgress := Fin 0,
                       error := None\<rparr>))
      else Inr s)"

definition reload :: "NavigationState \<Rightarrow> NavigationState" where
  "reload s = s\<lparr>isLoading := True, loadProgress := Fin 0, error := None\<rparr>"

definition stopLoading :: "NavigationState \<Rightarrow> NavigationState" where
  "stopLoading s = s\<lparr>isLoading := False\<rparr>"

definition setLoadProgress :: "jsnum \<Rightarrow> NavigationState \<Rightarrow> NavigationState" where
  "setLoadProgress progress s = s\<lparr>loadProgress := jmax (Fin 0) (jmin (Fin 100) progress)\<rparr>"

text \<open>
  \<open>history[historyIndex] = {...history[historyIndex], field}\<close>, under the guard
  \<open>historyIndex >= 0\<close> that every caller checks first.
\<close>

definition updateCurrentEntry ::
  "(NavigationEntry \<Rightarrow> NavigationEntry) \<Rightarrow> NavigationState \<Rightarrow> store_fault + NavigationState" where
  "updateCurrentEntry f s =
     (if historyIndex s < int (length (history s))
      then Inr (s\<lparr>history :=
                    (history s)[nat (historyIndex s) := f (history s ! nat (historyIndex s))]\<rparr>)
      else Inl SparseArray)"

definition setLoadComplete ::
  "jsstring option \<Rightarrow> NavigationState \<Rightarrow> store_fault + NavigationState" where
  "setLoadComplete t s =
     (let s' = s\<lparr>isLoading := False, loadProgress := Fin 100\<rparr>
      in case t of
           None \<Rightarrow> Inr s'
         | Some t' \<Rightarrow>
             if t' \<noteq> [] \<and> historyIndex s' \<ge> 0
             then updateCurrentEntry (\<lambda>e. e\<lparr>title := Some t'\<rparr>) s'
             else Inr s')"

definition setLoadError :: "NavigationError \<Rightarrow> NavigationState \<Rightarrow> NavigationState" where
  "setLoadError err s = s\<lparr>isLoading := False, error := Some err\<rparr>"

definition clearError :: "NavigationState \<Rightarrow> NavigationState" where
  "clearError s = s\<lparr>error := None\<rparr>"

definition updateTitle :: "jsstring \<Rightarrow> NavigationState \<Rightarrow> store_fault + NavigationState" where
  "updateTitle t s =
     (if historyIndex s \<ge> 0 then updateCurrentEntry (\<lambda>e. e\<lparr>title := Some t\<rparr>) s else Inr s)"

definition updateFavicon :: "jsstring \<Rightarrow> NavigationState \<Rightarrow> store_fault + NavigationState" where
  "updateFavicon f s =
     (if historyIndex s \<ge> 0 then updateCurrentEntry (\<lambda>e. e\<lparr>favicon := Some f\<rparr>) s else Inr s)"

definition reset :: "NavigationState \<Rightarrow> NavigationState" where
  "reset s = store_initial"

text \<open>The store's actions on the navigation state, and a run of them from the initial state.\<close>

datatype store_action =
    StoreNavigate int jsstring bool
  | StoreGoBack
  | StoreGoForward
  | Reload
  | StopLoading
  | SetLoadProgress jsnum
  | SetLoadComplete "jsstring option"
  | SetLoadError NavigationError
  | ClearError
  | UpdateTitle jsstring
  | UpdateFavicon jsstring
  | Reset

fun store_apply :: "NavigationState \<Rightarrow> store_action \<Rightarrow> store_fault + NavigationState" where
  "store_apply s (StoreNavigate now u replace) = store_navigate now u replace s"
| "store_apply s StoreGoBack = store_goBack s"
| "store_apply s StoreGoForward = store_goForward s"
| "store_apply s Reload = Inr (reload s)"
| "store_apply s StopLoading = Inr (stopLoading s)"
| "store_apply s (SetLoadProgress p) = Inr (setLoadProgress p s)"
| "store_apply s (SetLoadComplete t) = setLoadComplete t s"
| "store_apply s (SetLoadError err) = Inr (setLoadError err s)"
| "store_apply s ClearError = Inr (clearError s)"
| "store_apply s (UpdateTitle t) = updateTitle t s"
| "store_apply s (UpdateFavicon f) = updateFavicon f s"
| "store_apply s Reset = Inr (reset s)"

fun store_from :: "NavigationState \<Rightarrow> store_action list \<Rightarrow> store_fault + NavigationState" where
  "store_from s [] = Inr s"
| "store_from s (a # as) =
     (case store_apply s a of Inl e \<Rightarrow> Inl e | Inr s' \<Rightarrow> store_from s' as)"

definition store_run :: "store_action list \<Rightarrow> store_fault + NavigationState" where
  "store_run acts = store_from store_initial acts"

section \<open>The scale calculation of useViewport (src/composables/useDeviceConfig.ts, lines 492 to 526)\<close>

record ScaleResult =
  scale :: jsnum
  scaledWidth :: jsnum
  scaledHeight :: jsnum
  fitsContainer :: bool

datatype scale_fault = DivisionByZero

text \<open>\<open>paddingPx\<close> is optional in the source: \<open>None\<close> is the default of 20.\<close>

definition calculateScale ::
  "rounding \<Rightarrow> jsnum \<Rightarrow> jsnum \<Rightarrow> jsnum \<Rightarrow> jsnum \<Rightarrow> jsnum option \<Rightarrow> scale_fault + ScaleResult" where
  "calculateScale rnd containerW containerH deviceW deviceH padding =
     (let paddingPx = (case padding of None \<Rightarrow> Fin 20 | Some p \<Rightarrow> p);
          availableWidth = jmax (Fin 0) (jsub rnd containerW (jmul rnd paddingPx (Fin 2)));
          availableHeight = jmax (Fin 0) (jsub rnd containerH (jmul rnd paddingPx (Fin 2)))
      in if jle deviceW (Fin 0) \<or> jle deviceH (Fin 0)
            \<or> jle availableWidth (Fin 0) \<or> jle availableHeight (Fin 0)
         then Inr \<lparr>scale = Fin 1, scaledWidth = deviceW, scaledHeight = deviceH,
                   fitsContainer = False\<rparr>
         else
           case jdiv rnd availableWidth deviceW of
             None \<Rightarrow> Inl DivisionByZero
           | Some scaleX \<Rightarrow>
               (case jdiv rnd availableHeight deviceH of
                  None \<Rightarrow> Inl DivisionByZero
                | Some scaleY \<Rightarrow>
                    let sc = jmin (jmin scaleX scaleY) (Fin 1)
                    in Inr \<lparr>scale = sc,
                            scaledWidth = jmul rnd deviceW sc,
                            scaledHeight = jmul rnd deviceH sc,
                            fitsContainer = (jge scaleX (Fin 1) \<and> jge scaleY (Fin 1))\<rparr>))"

text \<open>
  \<open>calculateScaleFactor\<close> of src/utils/dimensions.ts: the same quotients with a default
  padding of 40, without the clamp of the available space and without the guard.
\<close>

definition calculateScaleFactor ::
  "rounding \<Rightarrow> jsnum \<Rightarrow> jsnum \<Rightarrow> jsnum \<Rightarrow> jsnum \<Rightarrow> jsnum option \<Rightarrow> scale_fault + jsnum" where
  "calculateScaleFactor rnd deviceWidth deviceHeight containerWidth containerHeight pad =
     (let padding = (case pad of None \<Rightarrow> Fin 40 | Some p \<Rightarrow> p);
          availableWidth = jsub rnd containerWidth (jmul rnd padding (Fin 2));
          availableHeight = jsub rnd containerHeight (jmul rnd padding (Fin 2))
      in case jdiv rnd availableWidth deviceWidth of
           None \<Rightarrow> Inl DivisionByZero
         | Some scaleX \<Rightarrow>
             (case jdiv rnd availableHeight deviceHeight of
                None \<Rightarrow> Inl DivisionByZero
              | Some scaleY \<Rightarrow> Inr (jmin (jmin scaleX scaleY) (Fin 1))))"

section \<open>Invariants of the two navigation models\<close>

text \<open>
  The composable: the cursor is \<open>-1\<close> or an index of \<open>entries\<close>, and the displayed URL is
  the entry under the cursor (the empty string when there is none).
\<close>

definition nav_inv :: "useNavigation \<Rightarrow> bool" where
  "nav_inv n =
     (- 1 \<le> currentIndex (nav_history n)
      \<and> currentIndex (nav_history n) < int (length (entries (nav_history n)))
      \<and> nav_currentUrl n =
          (if currentIndex (nav_history n) = - 1 then Some []
           else js_index (entries (nav_history n)) (currentIndex (nav_history n))))"

text \<open>
  The store: the same bounds, an empty history while the cursor is \<open>-1\<close>, the displayed
  URL is the one of the entry under the cursor, and the stored \<open>canGoBack\<close> agrees with
  the cursor. (The stored \<open>canGoForward\<close> is not part of it: see the theorem on
  \<open>replace\<close> below.)
\<close>

definition store_inv :: "NavigationState \<Rightarrow> bool" where
  "store_inv s =
     (- 1 \<le> historyIndex s
      \<and> historyIndex s < int (length (history s))
      \<and> (historyIndex s = - 1 \<longrightarrow> history s = [])
      \<and> (0 \<le> historyIndex s \<longrightarrow> currentUrl s = url (history s ! nat (historyIndex s)))
      \<and> canGoBack s = (historyIndex s > 0))"

text \<open>
  Whether the stored \<open>canGoForward\<close> agrees with the cursor, and whether an action of the
  store is a \<open>navigate\<close> with \<open>replace\<close>.
\<close>

definition canGoForward_agrees :: "NavigationState \<Rightarrow> bool" where
  "canGoForward_agrees s = (canGoForward s = (historyIndex s < int (length (history s)) - 1))"

fun replaces :: "store_action \<Rightarrow> bool" where
  "replaces (StoreNavigate now u r) = r"
| "replaces a = False"

section \<open>Basic facts\<close>

lemma jle_jmax_zero: "jle (jmax (Fin 0) x) (Fin 0) = jle x (Fin 0)"
  by (cases x) (auto simp: jmax_def)

lemma jmin_Fin: "jmin (Fin a) (Fin b) = Fin (min a b)"
  by (simp add: jmin_def min_def)

lemma jdiv_defined: "\<not> jle d (Fin 0) \<Longrightarrow> jdiv rnd a d \<noteq> None"
  by (cases d; cases a) auto

lemma jsub_Fin: "jsub rnd a b = Fin c \<Longrightarrow> \<exists>t. rnd t = Fin c"
  by (cases a; cases b) auto

lemma url_newEntry [simp]: "url (newEntry u now) = u"
  by (simp add: newEntry_def)

lemma slice0_take: "- 1 \<le> i \<Longrightarrow> slice0 xs (i + 1) = take (nat (i + 1)) xs"
  by (auto simp: slice0_def Let_def min_def)

subsection \<open>Rounding to a double\<close>

lemma roundHalfEven_nonneg: "0 \<le> z \<Longrightarrow> 0 \<le> roundHalfEven z"
  by (auto simp: roundHalfEven_def Let_def)

lemma roundHalfEven_nonpos: "z \<le> 0 \<Longrightarrow> roundHalfEven z \<le> 0"
proof -
  assume z: "z \<le> 0"
  have f: "\<lfloor>z\<rfloor> \<le> 0" using z by (simp add: floor_le_zero)
  have "\<lfloor>z\<rfloor> + 1 \<le> 0" if "1 / 2 \<le> z - of_int \<lfloor>z\<rfloor>"
  proof -
    from that z have "of_int \<lfloor>z\<rfloor> \<le> - (1 / 2 :: real)" by linarith
    then have "of_int \<lfloor>z\<rfloor> < (0::real)" by linarith
    then have "\<lfloor>z\<rfloor> < 0" by (simp only: of_int_less_0_iff)
    then show ?thesis by linarith
  qed
  with f show ?thesis
    by (auto simp: roundHalfEven_def Let_def not_less)
qed

lemma floor_log2_eq:
  assumes "2 powi e \<le> x" "x < 2 powi (e + 1)"
  shows "\<lfloor>log 2 x\<rfloor> = e"
proof -
  have p: "0 < (2::real) powi e" by simp
  with assms(1) have x: "0 < x" by linarith
  have a: "(2::real) powr (of_int e) = 2 powi e"
    by (simp add: powr_real_of_int')
  have "(2::real) powr (of_int (e + 1)) = 2 powi (e + 1)"
    by (rule powr_real_of_int') simp_all
  then have b: "(2::real) powr (of_int e + 1) = 2 powi (e + 1)"
    by simp
  show ?thesis
    using x assms a b floor_log_eq_powr_iff [of x 2 e] by simp
qed

text \<open>
  How \<open>binary64\<close> is evaluated: for \<open>x\<close> in the binade of exponent \<open>e\<close> the result is
  the rounded quotient \<open>m\<close> times the spacing.
\<close>

lemma binary64_positive:
  assumes "2 powi e \<le> x" "x < 2 powi (e + 1)" "- 1022 \<le> e"
    and "roundHalfEven (x / 2 powi (e - 52)) = m"
    and "of_int m * 2 powi (e - 52) < overflowBound"
  shows "binary64 x = Fin (of_int m * 2 powi (e - 52))"
proof -
  have p: "0 < (2::real) powi e" by simp
  with assms(1) have x: "0 < x" by linarith
  have fl: "\<lfloor>log 2 \<bar>x\<bar>\<rfloor> = e"
    using floor_log2_eq [OF assms(1,2)] x by simp
  have mx: "max e (- 1022) = e" using assms(3) by simp
  have "0 \<le> x / 2 powi (e - 52)" using x by simp
  then have "0 \<le> m" using roundHalfEven_nonneg assms(4) by blast
  then have nn: "0 \<le> of_int m * (2::real) powi (e - 52)" by simp
  have ab: "\<bar>of_int m * (2::real) powi (e - 52)\<bar> = of_int m * 2 powi (e - 52)"
    using nn by (rule abs_of_nonneg)
  have nz: "x \<noteq> 0" using x by simp
  show ?thesis
    unfolding binary64_def Let_def fl mx assms(4) ab
    using nz assms(5) by simp
qed

lemma binary64_negative:
  assumes "2 powi e \<le> - x" "- x < 2 powi (e + 1)" "- 1022 \<le> e"
    and "roundHalfEven (x / 2 powi (e - 52)) = m"
    and "- overflowBound < of_int m * 2 powi (e - 52)"
  shows "binary64 x = Fin (of_int m * 2 powi (e - 52))"
proof -
  have p: "0 < (2::real) powi e" by simp
  with assms(1) have x: "x < 0" by linarith
  have fl: "\<lfloor>log 2 \<bar>x\<bar>\<rfloor> = e"
    using floor_log2_eq [OF assms(1,2)] x by simp
  have mx: "max e (- 1022) = e" using assms(3) by simp
  have "x / 2 powi (e - 52) \<le> 0" using x by (simp add: divide_nonpos_pos)
  then have "m \<le> 0" using roundHalfEven_nonpos assms(4) by blast
  then have np: "of_int m * (2::real) powi (e - 52) \<le> 0"
    by (simp add: mult_nonpos_nonneg)
  have ab: "\<bar>of_int m * (2::real) powi (e - 52)\<bar> = - (of_int m * 2 powi (e - 52))"
    using np by (rule abs_of_nonpos)
  have nz: "x \<noteq> 0" using x by simp
  show ?thesis
    unfolding binary64_def Let_def fl mx assms(4) ab
    using nz assms(5) by simp
qed

text \<open>Bounds on the rounding error, for every argument.\<close>

lemma roundHalfEven_upper: "of_int (roundHalfEven z) \<le> z + 1 / 2"
proof -
  define f where "f = \<lfloor>z\<rfloor>"
  have "of_int f \<le> z" unfolding f_def by linarith
  then show ?thesis
    unfolding roundHalfEven_def Let_def f_def [symmetric] by auto
qed

lemma roundHalfEven_lower: "z - 1 / 2 \<le> of_int (roundHalfEven z)"
proof -
  define f where "f = \<lfloor>z\<rfloor>"
  have "z < of_int f + 1" unfolding f_def by linarith
  then show ?thesis
    unfolding roundHalfEven_def Let_def f_def [symmetric] by auto
qed

lemma roundHalfEven_ge_int:
  assumes "of_int k \<le> z"
  shows "k \<le> roundHalfEven z"
proof -
  have "(of_int k :: real) - 1 / 2 \<le> of_int (roundHalfEven z)"
    using assms roundHalfEven_lower [of z] by linarith
  then have "(of_int k :: real) < of_int (roundHalfEven z) + 1" by linarith
  then have "k < roundHalfEven z + 1" by (metis of_int_1 of_int_add of_int_less_iff)
  then show ?thesis by linarith
qed

lemma roundHalfEven_near_int:
  assumes "of_int k \<le> z" "z < of_int k + 1 / 2"
  shows "roundHalfEven z = k"
proof -
  have "\<lfloor>z\<rfloor> = k" using assms by linarith
  then show ?thesis using assms by (simp add: roundHalfEven_def Let_def)
qed

lemma roundHalfEven_le_int:
  assumes "z < of_int k + 1 / 2"
  shows "roundHalfEven z \<le> k"
proof -
  have "of_int (roundHalfEven z) < (of_int k :: real) + 1"
    using assms roundHalfEven_upper [of z] by linarith
  then have "roundHalfEven z < k + 1" by (metis of_int_1 of_int_add of_int_less_iff)
  then show ?thesis by linarith
qed

lemma powi_floor_log2:
  assumes "0 < x"
  shows "2 powi \<lfloor>log 2 x\<rfloor> \<le> x" and "x < 2 powi (\<lfloor>log 2 x\<rfloor> + 1)"
proof -
  let ?e = "\<lfloor>log 2 x\<rfloor>"
  have a: "(2::real) powr (of_int ?e) = 2 powi ?e"
    by (rule powr_real_of_int') simp_all
  have "(2::real) powr (of_int (?e + 1)) = 2 powi (?e + 1)"
    by (rule powr_real_of_int') simp_all
  then have b: "(2::real) powr (of_int ?e + 1) = 2 powi (?e + 1)" by simp
  have "2 powr (of_int ?e) \<le> x \<and> x < 2 powr (of_int ?e + 1)"
    using assms floor_log_eq_powr_iff [of x 2 ?e] by simp
  then show "2 powi ?e \<le> x" and "x < 2 powi (?e + 1)"
    using a b by simp_all
qed

lemma floor_log2_ge:
  assumes "2 powi k \<le> x"
  shows "k \<le> \<lfloor>log 2 x\<rfloor>"
proof (rule ccontr)
  assume "\<not> k \<le> \<lfloor>log 2 x\<rfloor>"
  then have "\<lfloor>log 2 x\<rfloor> + 1 \<le> k" by simp
  then have "(2::real) powi (\<lfloor>log 2 x\<rfloor> + 1) \<le> 2 powi k"
    by (rule power_int_increasing) simp
  moreover have "0 < (2::real) powi k" by simp
  then have "0 < x" using assms by linarith
  then have "x < 2 powi (\<lfloor>log 2 x\<rfloor> + 1)" by (rule powi_floor_log2)
  ultimately show False using assms by linarith
qed

lemma floor_log2_less:
  assumes "0 < x" "x < 2 powi k"
  shows "\<lfloor>log 2 x\<rfloor> < k"
proof (rule ccontr)
  assume "\<not> \<lfloor>log 2 x\<rfloor> < k"
  then have "k \<le> \<lfloor>log 2 x\<rfloor>" by simp
  then have "(2::real) powi k \<le> 2 powi \<lfloor>log 2 x\<rfloor>"
    by (rule power_int_increasing) simp
  with powi_floor_log2(1) [OF assms(1)] assms(2) show False by linarith
qed

text \<open>Normal range: the result, when finite, is within half a spacing of x and not below the binade.\<close>

lemma binary64_normal:
  assumes "2 powi (- 1022) \<le> x"
  obtains y where
    "binary64 x = (if overflowBound \<le> y then PosInf else Fin y)"
    "2 powi \<lfloor>log 2 x\<rfloor> \<le> y"
    "y \<le> x + 2 powi \<lfloor>log 2 x\<rfloor> / 2 ^ 53"
    "x < 2 powi \<lfloor>log 2 x\<rfloor> * (1 + 1 / 2 ^ 53) \<longrightarrow> y = 2 powi \<lfloor>log 2 x\<rfloor>"
proof -
  let ?e = "\<lfloor>log 2 x\<rfloor>"
  define q :: real where "q = 2 powi (?e - 52)"
  define m where "m = roundHalfEven (x / q)"
  have "0 < (2::real) powi (- 1022)" by simp
  with assms have x: "0 < x" by linarith
  have e: "- 1022 \<le> ?e" using assms by (rule floor_log2_ge)
  have q: "0 < q" by (simp add: q_def)
  have pe: "(2::real) powi ?e = 2 ^ 52 * q"
    unfolding q_def by (simp add: power_int_diff)
  have lo: "2 powi ?e \<le> x" using x by (rule powi_floor_log2)
  then have "(2::real) ^ 52 \<le> x / q" using q pe by (simp add: field_simps)
  then have "of_int (2 ^ 52) \<le> x / q" by simp
  then have m52: "2 ^ 52 \<le> m" unfolding m_def by (rule roundHalfEven_ge_int)
  then have "(2::real) ^ 52 \<le> of_int m"
    by (metis of_int_le_iff of_int_numeral of_int_power)
  then have ylo: "2 powi ?e \<le> of_int m * q" using q pe by simp
  have "of_int m \<le> x / q + 1 / 2" unfolding m_def by (rule roundHalfEven_upper)
  then have "of_int m * q \<le> (x / q + 1 / 2) * q" using q by (simp only: mult_right_mono less_imp_le)
  also have "\<dots> = x + q / 2" using q by (simp add: field_simps)
  also have "q / 2 = 2 powi ?e / 2 ^ 53" using pe by simp
  finally have yhi: "of_int m * q \<le> x + 2 powi ?e / 2 ^ 53" by simp
  have sharp: "of_int m * q = 2 powi ?e" if "x < 2 powi ?e * (1 + 1 / 2 ^ 53)"
  proof -
    from that pe have "x < 2 ^ 52 * q + q / 2" by (simp add: field_simps)
    then have "x / q < 2 ^ 52 + 1 / 2" using q by (simp add: field_simps)
    then have "x / q < of_int (2 ^ 52) + 1 / 2" by simp
    moreover have "of_int (2 ^ 52) \<le> x / q" by fact
    ultimately have "roundHalfEven (x / q) = 2 ^ 52" by (rule roundHalfEven_near_int [rotated])
    then show ?thesis using pe by (simp add: m_def)
  qed
  have "0 < (2::real) powi ?e" by simp
  with ylo have ypos: "0 \<le> of_int m * q" by linarith
  have mx: "max ?e (- 1022) = ?e" using e by simp
  have "binary64 x = (if overflowBound \<le> of_int m * q then PosInf else Fin (of_int m * q))"
    using x ypos by (simp add: binary64_def Let_def mx q_def [symmetric] m_def [symmetric])
  with ylo yhi sharp show ?thesis using that by blast
qed

lemma binary64_subnormal:
  assumes "0 < x" "x < 2 powi (- 1022)"
  obtains y where "binary64 x = Fin y" "0 \<le> y" "y \<le> x + 2 powi (- 1075)"
proof -
  define q :: real where "q = 2 powi (- 1074)"
  define m where "m = roundHalfEven (x / q)"
  have q: "0 < q" by (simp add: q_def)
  have e: "\<lfloor>log 2 x\<rfloor> < - 1022" using assms by (rule floor_log2_less)
  then have mx: "max \<lfloor>log 2 \<bar>x\<bar>\<rfloor> (- 1022) - 52 = - 1074" using assms(1) by simp
  have "0 \<le> x / q" using assms(1) q by simp
  then have "0 \<le> m" unfolding m_def by (rule roundHalfEven_nonneg)
  then have ypos: "0 \<le> of_int m * q" using q by simp
  have "of_int m \<le> x / q + 1 / 2" unfolding m_def by (rule roundHalfEven_upper)
  then have "of_int m * q \<le> (x / q + 1 / 2) * q" using q by (simp only: mult_right_mono less_imp_le)
  also have "\<dots> = x + q / 2" using q by (simp add: field_simps)
  also have "q / 2 = 2 powi (- 1075)"
    unfolding q_def using power_int_diff [of "2::real" "- 1074" 1] by simp
  finally have yhi: "of_int m * q \<le> x + 2 powi (- 1075)" by simp
  have "(2::real) powi (- 1075) \<le> 2 powi 0" by (rule power_int_increasing) simp_all
  moreover have "(2::real) powi (- 1022) \<le> 2 powi 0" by (rule power_int_increasing) simp_all
  ultimately have "of_int m * q < 2" using yhi assms(2) by simp
  moreover have "(2::real) \<le> overflowBound"
    unfolding overflowBound_def using power_increasing [of 1 1024 "2::real"] by simp
  ultimately have fin: "\<not> overflowBound \<le> \<bar>of_int m * q\<bar>" using ypos by simp
  have "binary64 x = Fin (of_int m * q)"
    using assms(1) fin unfolding binary64_def Let_def mx q_def [symmetric] m_def [symmetric]
    by simp
  with ypos yhi show ?thesis using that by blast
qed

text \<open>Below the normal range the spacing is \<open>2^-1074\<close> and nothing overflows.\<close>

lemma binary64_tiny:
  assumes "0 < x" "x < 2 powi (- 1022)"
    and "roundHalfEven (x / 2 powi (- 1074)) = m"
  shows "binary64 x = Fin (of_int m * 2 powi (- 1074))"
proof -
  define q :: real where "q = 2 powi (- 1074)"
  have q: "0 < q" by (simp add: q_def)
  have m: "m = roundHalfEven (x / q)" using assms(3) by (simp add: q_def)
  have e: "\<lfloor>log 2 x\<rfloor> < - 1022" using assms(1,2) by (rule floor_log2_less)
  then have mx: "max \<lfloor>log 2 \<bar>x\<bar>\<rfloor> (- 1022) - 52 = - 1074" using assms(1) by simp
  have "0 \<le> x / q" using assms(1) q by simp
  then have "0 \<le> m" unfolding m by (rule roundHalfEven_nonneg)
  then have ypos: "0 \<le> of_int m * q" using q by simp
  have "of_int m \<le> x / q + 1 / 2" unfolding m by (rule roundHalfEven_upper)
  then have "of_int m * q \<le> (x / q + 1 / 2) * q" using q by (simp only: mult_right_mono less_imp_le)
  also have "\<dots> = x + q / 2" using q by (simp add: field_simps)
  also have "q / 2 = 2 powi (- 1075)"
    unfolding q_def using power_int_diff [of "2::real" "- 1074" 1] by simp
  finally have yhi: "of_int m * q \<le> x + 2 powi (- 1075)" by simp
  have "(2::real) powi (- 1075) \<le> 2 powi 0" by (rule power_int_increasing) simp_all
  moreover have "(2::real) powi (- 1022) \<le> 2 powi 0" by (rule power_int_increasing) simp_all
  ultimately have "of_int m * q < 2" using yhi assms(2) by simp
  moreover have "(2::real) \<le> overflowBound"
    unfolding overflowBound_def using power_increasing [of 1 1024 "2::real"] by simp
  ultimately have fin: "\<not> overflowBound \<le> \<bar>of_int m * q\<bar>" using ypos by simp
  show ?thesis
    using assms(1) fin unfolding binary64_def Let_def mx q_def [symmetric] m [symmetric]
    by simp
qed

text \<open>A positive result below the normal range is a multiple of the subnormal spacing.\<close>

lemma binary64_grid:
  assumes "binary64 t = Fin a" "0 < a" "a < 2 powi (- 1022)"
  obtains k where "a = of_int k * 2 powi (- 1074)"
proof -
  have tpos: "0 < t"
  proof (rule ccontr)
    assume "\<not> 0 < t"
    then consider "t = 0" | "t < 0" by linarith
    then show False
    proof cases
      case 1
      with assms(1,2) show False by (simp add: binary64_def)
    next
      case 2
      define q :: real where "q = 2 powi (max \<lfloor>log 2 \<bar>t\<bar>\<rfloor> (- 1022) - 52)"
      have q: "0 < q" by (simp add: q_def)
      have "t / q \<le> 0" using 2 q by (simp add: divide_nonpos_pos)
      then have "roundHalfEven (t / q) \<le> 0" by (rule roundHalfEven_nonpos)
      then have y: "of_int (roundHalfEven (t / q)) * q \<le> 0"
        using q by (simp add: mult_nonpos_nonneg)
      have "binary64 t = (if overflowBound \<le> \<bar>of_int (roundHalfEven (t / q)) * q\<bar>
                            then NegInf else Fin (of_int (roundHalfEven (t / q)) * q))"
        using 2 by (simp add: binary64_def Let_def q_def)
      with assms(1) have "a = of_int (roundHalfEven (t / q)) * q"
        by (simp split: if_splits)
      with y assms(2) show False by linarith
    qed
  qed
  have small: "t < 2 powi (- 1022)"
  proof (rule ccontr)
    assume "\<not> t < 2 powi (- 1022)"
    then have n: "2 powi (- 1022) \<le> t" by simp
    from binary64_normal [OF n] obtain y where y:
      "binary64 t = (if overflowBound \<le> y then PosInf else Fin y)"
      "2 powi \<lfloor>log 2 t\<rfloor> \<le> y" by blast
    have "- 1022 \<le> \<lfloor>log 2 t\<rfloor>" using n by (rule floor_log2_ge)
    then have "(2::real) powi (- 1022) \<le> 2 powi \<lfloor>log 2 t\<rfloor>"
      by (rule power_int_increasing) simp
    moreover from y(1) assms(1) have "a = y" by (simp split: if_splits)
    ultimately show False using y(2) assms(3) by linarith
  qed
  from binary64_tiny [OF tpos small refl] assms(1)
  have "a = of_int (roundHalfEven (t / 2 powi (- 1074))) * 2 powi (- 1074)" by simp
  then show ?thesis using that by blast
qed

text \<open>
  A product that exceeds a positive double \<open>a\<close> by at most one part in \<open>2^53\<close> rounds to
  at most \<open>a * (1 + 2^-52)\<close>, also when \<open>a\<close> is subnormal.
\<close>

lemma binary64_near:
  assumes z: "0 < z" "z \<le> a * (1 + 1 / 2 ^ 53)"
    and a: "binary64 t = Fin a" "0 < a" "a \<le> 2 ^ 1023"
  obtains w where "binary64 z = Fin w" "0 \<le> w" "w \<le> a * (1 + 1 / 2 ^ 52)"
proof (cases "z < 2 powi (- 1022)")
  case True
  show ?thesis
  proof (cases "2 powi (- 1022) \<le> a")
    case big: True
    from binary64_subnormal [OF z(1) True] obtain w
      where w: "binary64 z = Fin w" "0 \<le> w" "w \<le> z + 2 powi (- 1075)" by blast
    have "(2::real) powi (- 1075) = 2 powi (- 1022) / 2 ^ 53"
      using power_int_diff [of "2::real" "- 1022" 53] by simp
    also have "\<dots> \<le> a / 2 ^ 53" using big by (simp add: divide_right_mono)
    finally have "w \<le> a * (1 + 1 / 2 ^ 53) + a / 2 ^ 53" using w(3) z(2) by linarith
    also have "\<dots> = a * (1 + 1 / 2 ^ 52)" by (simp add: field_simps)
    finally show ?thesis using w that by blast
  next
    case False
    then have asmall: "a < 2 powi (- 1022)" by simp
    define q :: real where "q = 2 powi (- 1074)"
    have q: "0 < q" by (simp add: q_def)
    from binary64_grid [OF a(1,2) asmall] obtain k where k: "a = of_int k * q"
      unfolding q_def by blast
    define m where "m = roundHalfEven (z / q)"
    have w: "binary64 z = Fin (of_int m * q)"
      unfolding m_def q_def by (rule binary64_tiny [OF z(1) True refl])
    have "0 \<le> z / q" using z(1) q by simp
    then have mpos: "0 \<le> m" unfolding m_def by (rule roundHalfEven_nonneg)
    have pq: "(2::real) powi (- 1022) = 2 ^ 52 * q"
      unfolding q_def using power_int_add [of "2::real" 52 "- 1074"] by simp
    from asmall have "of_int k * q < 2 ^ 52 * q" by (simp only: k pq)
    then have k52: "of_int k < (2::real) ^ 52"
      using q by (simp only: mult_less_cancel_right_pos)
    have "z / q \<le> a * (1 + 1 / 2 ^ 53) / q"
      using z(2) by (rule divide_right_mono) (use q in simp)
    also have "\<dots> = of_int k + of_int k / 2 ^ 53" using k q by (simp add: field_simps)
    also have "\<dots> < of_int k + 1 / 2" using k52 by simp
    finally have "m \<le> k" unfolding m_def by (rule roundHalfEven_le_int)
    then have "of_int m * q \<le> of_int k * q" using q by simp
    also have "\<dots> = a" using k by simp
    also have "a \<le> a * (1 + 1 / 2 ^ 52)" using a(2) by simp
    finally have "of_int m * q \<le> a * (1 + 1 / 2 ^ 52)" .
    moreover have "0 \<le> of_int m * q" using mpos q by simp
    ultimately show ?thesis using w that by blast
  qed
next
  case False
  then have n: "2 powi (- 1022) \<le> z" by simp
  let ?e = "\<lfloor>log 2 z\<rfloor>"
  from binary64_normal [OF n] obtain y where y:
    "binary64 z = (if overflowBound \<le> y then PosInf else Fin y)"
    "2 powi ?e \<le> y"
    "y \<le> z + 2 powi ?e / 2 ^ 53"
    "z < 2 powi ?e * (1 + 1 / 2 ^ 53) \<longrightarrow> y = 2 powi ?e" by blast
  have pz: "2 powi ?e \<le> z" using z(1) by (rule powi_floor_log2)
  have bound: "y \<le> a * (1 + 1 / 2 ^ 52)"
  proof (cases "2 powi ?e \<le> a")
    case True
    then have "2 powi ?e / 2 ^ 53 \<le> a / 2 ^ 53" by (simp add: divide_right_mono)
    then have "y \<le> a * (1 + 1 / 2 ^ 53) + a / 2 ^ 53" using y(3) z(2) by linarith
    also have "\<dots> = a * (1 + 1 / 2 ^ 52)" by (simp add: field_simps)
    finally show ?thesis .
  next
    case False
    then have "a * (1 + 1 / 2 ^ 53) < 2 powi ?e * (1 + 1 / 2 ^ 53)" by simp
    with z(2) have "z < 2 powi ?e * (1 + 1 / 2 ^ 53)" by linarith
    with y(4) have "y = 2 powi ?e" by simp
    with pz z(2) have "y \<le> a * (1 + 1 / 2 ^ 53)" by linarith
    also have "\<dots> \<le> a * (1 + 1 / 2 ^ 52)" using a(2) by simp
    finally show ?thesis .
  qed
  have "a * (1 + 1 / 2 ^ 52) \<le> 2 ^ 1023 * (1 + 1 / 2 ^ 52)" using a(3) by simp
  also have "\<dots> < 2 ^ 1023 * 2" by simp
  also have "\<dots> = (2::real) ^ 1024" by simp
  finally have "y < overflowBound" using bound by (simp add: overflowBound_def)
  moreover have "0 < (2::real) powi ?e" by simp
  with y(2) have "0 \<le> y" by linarith
  ultimately show ?thesis using y(1) bound that by simp
qed

lemma binary64_quotient:
  assumes "2 powi (- 1022) \<le> x"
  obtains y where
    "binary64 x = (if overflowBound \<le> y then PosInf else Fin y)"
    "2 powi (- 1022) \<le> y"
    "y \<le> x * (1 + 1 / 2 ^ 53)"
proof -
  let ?e = "\<lfloor>log 2 x\<rfloor>"
  from binary64_normal [OF assms] obtain y where y:
    "binary64 x = (if overflowBound \<le> y then PosInf else Fin y)"
    "2 powi ?e \<le> y"
    "y \<le> x + 2 powi ?e / 2 ^ 53" by blast
  have "0 < (2::real) powi (- 1022)" by simp
  with assms have x: "0 < x" by linarith
  have "- 1022 \<le> ?e" using assms by (rule floor_log2_ge)
  then have "(2::real) powi (- 1022) \<le> 2 powi ?e" by (rule power_int_increasing) simp
  with y(2) have lo: "2 powi (- 1022) \<le> y" by linarith
  have "2 powi ?e \<le> x" using x by (rule powi_floor_log2)
  then have "2 powi ?e / 2 ^ 53 \<le> x / 2 ^ 53" by (simp add: divide_right_mono)
  with y(3) have "y \<le> x + x / 2 ^ 53" by linarith
  also have "\<dots> = x * (1 + 1 / 2 ^ 53)" by (simp add: field_simps)
  finally show ?thesis using y(1) lo that by blast
qed

lemma one_le_overflowBound: "1 \<le> overflowBound"
  unfolding overflowBound_def by simp

lemma minNormal_le_one: "(2::real) powi (- 1022) \<le> 1"
  using power_int_increasing [of "- 1022" 0 "2::real"] by simp

lemma scale_of_quotients:
  assumes "sx = (if overflowBound \<le> yx then PosInf else Fin yx)"
    and "sy = (if overflowBound \<le> yy then PosInf else Fin yy)"
    and "2 powi (- 1022) \<le> yx" "2 powi (- 1022) \<le> yy"
  obtains s where "jmin (jmin sx sy) (Fin 1) = Fin s"
    "2 powi (- 1022) \<le> s" "s \<le> 1" "s \<le> yx" "s \<le> yy"
proof -
  have "jmin (jmin sx sy) (Fin 1) = Fin (min (min yx yy) 1)"
    using assms(1,2) one_le_overflowBound
    by (auto simp: jmin_def min_def)
  moreover have "2 powi (- 1022) \<le> min (min yx yy) 1"
    using assms(3,4) minNormal_le_one by simp
  ultimately show ?thesis using that [of "min (min yx yy) 1"] by simp
qed

lemma scale_at_most_one:
  assumes "calculateScale rnd cw ch dw dh pd = Inr r" "scale r = Fin t"
  shows "t \<le> 1"
proof -
  have m: "t \<le> 1" if "jmin a (Fin 1) = Fin t" for a
    using that by (cases a) (auto simp: jmin_def split: if_splits)
  show ?thesis
    using assms m
    by (auto simp: calculateScale_def Let_def split: if_splits option.splits)
qed

subsection \<open>The composable keeps its invariant\<close>

lemma nav_inv_initial: "nav_inv nav_initial"
  by (simp add: nav_inv_def nav_initial_def)

lemma nav_inv_navigate: "nav_inv n \<Longrightarrow> nav_inv (navigate p u n)"
  by (auto simp: nav_inv_def navigate_def Let_def js_index_def nth_append)

lemma nav_inv_goBack: "nav_inv n \<Longrightarrow> nav_inv (goBack n)"
  by (auto simp: nav_inv_def goBack_def Let_def nav_canGoBack_def)

lemma nav_inv_goForward: "nav_inv n \<Longrightarrow> nav_inv (goForward n)"
  by (auto simp: nav_inv_def goForward_def Let_def nav_canGoForward_def)

lemma nav_inv_apply: "nav_inv n \<Longrightarrow> nav_inv (nav_apply p n a)"
proof (cases a)
  case (Navigate u) then show "nav_inv n \<Longrightarrow> ?thesis" by (simp add: nav_inv_navigate)
next
  case GoBack then show "nav_inv n \<Longrightarrow> ?thesis" by (simp add: nav_inv_goBack)
next
  case GoForward then show "nav_inv n \<Longrightarrow> ?thesis" by (simp add: nav_inv_goForward)
qed (auto simp: nav_inv_def refresh_def stop_def setProgress_def onLoadComplete_def
       onLoadError_def clear_def)

lemma nav_inv_foldl: "nav_inv n \<Longrightarrow> nav_inv (foldl (nav_apply p) n acts)"
  by (induction acts arbitrary: n) (simp_all add: nav_inv_apply)

lemma nav_inv_run: "nav_inv (nav_run p acts)"
  by (simp add: nav_run_def nav_inv_foldl nav_inv_initial)

subsection \<open>The store keeps its invariant and never leaves the array\<close>

lemma store_inv_initial: "store_inv store_initial"
  by (simp add: store_inv_def store_initial_def)

lemma store_navigate_inv:
  assumes "store_inv s"
  shows "\<exists>s'. store_navigate now u r s = Inr s' \<and> store_inv s'"
  using assms
  by (auto simp: store_inv_def store_navigate_def Let_def nth_append)

lemma store_goBack_inv:
  assumes "store_inv s"
  shows "\<exists>s'. store_goBack s = Inr s' \<and> store_inv s'"
  using assms
  by (auto simp: store_inv_def store_goBack_def Let_def js_index_def)

lemma store_goForward_inv:
  assumes "store_inv s"
  shows "\<exists>s'. store_goForward s = Inr s' \<and> store_inv s'"
  using assms
  by (auto simp: store_inv_def store_goForward_def Let_def js_index_def)

lemma updateCurrentEntry_inv:
  assumes "store_inv s" "0 \<le> historyIndex s" "\<And>e. url (f e) = url e"
  shows "\<exists>s'. updateCurrentEntry f s = Inr s' \<and> store_inv s'"
  using assms
  by (auto simp: store_inv_def updateCurrentEntry_def)

lemma setLoadComplete_inv:
  assumes "store_inv s"
  shows "\<exists>s'. setLoadComplete t s = Inr s' \<and> store_inv s'"
proof (cases "\<exists>t'. t = Some t' \<and> t' \<noteq> [] \<and> 0 \<le> historyIndex s")
  case True
  then obtain t' where t: "t = Some t'" "t' \<noteq> []" "0 \<le> historyIndex s" by blast
  have "store_inv (s\<lparr>isLoading := False, loadProgress := Fin 100\<rparr>)"
    using assms by (simp add: store_inv_def)
  then show ?thesis
    using t updateCurrentEntry_inv [of "s\<lparr>isLoading := False, loadProgress := Fin 100\<rparr>"
                                      "\<lambda>e. e\<lparr>title := Some t'\<rparr>"]
    by (simp add: setLoadComplete_def Let_def)
next
  case False
  then show ?thesis
    using assms by (cases t) (auto simp: setLoadComplete_def store_inv_def Let_def)
qed

lemma store_apply_inv:
  assumes "store_inv s"
  shows "\<exists>s'. store_apply s a = Inr s' \<and> store_inv s'"
proof (cases a)
  case (StoreNavigate now u r)
  then show ?thesis using store_navigate_inv [OF assms] by simp
next
  case StoreGoBack
  then show ?thesis using store_goBack_inv [OF assms] by simp
next
  case StoreGoForward
  then show ?thesis using store_goForward_inv [OF assms] by simp
next
  case (SetLoadComplete t)
  then show ?thesis using setLoadComplete_inv [OF assms] by simp
next
  case (UpdateTitle t)
  then show ?thesis
    using assms updateCurrentEntry_inv [of s "\<lambda>e. e\<lparr>title := Some t\<rparr>"]
    by (simp add: updateTitle_def)
next
  case (UpdateFavicon f)
  then show ?thesis
    using assms updateCurrentEntry_inv [of s "\<lambda>e. e\<lparr>favicon := Some f\<rparr>"]
    by (simp add: updateFavicon_def)
next
  case Reset
  then show ?thesis by (simp add: reset_def store_inv_initial)
qed (use assms in \<open>auto simp: store_inv_def reload_def stopLoading_def setLoadProgress_def
       setLoadError_def clearError_def\<close>)

lemma store_from_inv:
  "store_inv s \<Longrightarrow> \<exists>s'. store_from s acts = Inr s' \<and> store_inv s'"
proof (induction acts arbitrary: s)
  case Nil
  then show ?case by simp
next
  case (Cons a acts)
  from store_apply_inv [OF Cons.prems] obtain s1
    where s1: "store_apply s a = Inr s1" "store_inv s1" by blast
  with Cons.IH [of s1] show ?case by simp
qed

lemma store_run_inv: "\<exists>s. store_run acts = Inr s \<and> store_inv s"
  by (simp add: store_run_def store_from_inv store_inv_initial)

subsection \<open>Without \<open>replace\<close> the stored \<open>canGoForward\<close> agrees with the cursor\<close>

lemma store_apply_forward_flag:
  assumes "store_inv s" "canGoForward_agrees s" "\<not> replaces a" "store_apply s a = Inr s'"
  shows "canGoForward_agrees s'"
proof (cases a)
  case (StoreNavigate now u r)
  with assms show ?thesis
    by (auto simp: store_navigate_def newEntry_def Let_def canGoForward_agrees_def)
next
  case StoreGoBack
  with assms show ?thesis
    by (auto simp: store_goBack_def Let_def canGoForward_agrees_def store_inv_def js_index_def
          split: if_splits)
next
  case StoreGoForward
  with assms show ?thesis
    by (auto simp: store_goForward_def Let_def canGoForward_agrees_def store_inv_def
          js_index_def split: if_splits)
next
  case (SetLoadComplete t)
  with assms show ?thesis
    by (cases t) (auto simp: setLoadComplete_def updateCurrentEntry_def Let_def
                    canGoForward_agrees_def split: if_splits)
next
  case (UpdateTitle t)
  with assms show ?thesis
    by (auto simp: updateTitle_def updateCurrentEntry_def canGoForward_agrees_def
          split: if_splits)
next
  case (UpdateFavicon f)
  with assms show ?thesis
    by (auto simp: updateFavicon_def updateCurrentEntry_def canGoForward_agrees_def
          split: if_splits)
next
  case Reset
  with assms show ?thesis
    by (auto simp: reset_def store_initial_def canGoForward_agrees_def)
qed (use assms in \<open>auto simp: canGoForward_agrees_def reload_def stopLoading_def
       setLoadProgress_def setLoadError_def clearError_def\<close>)

lemma store_from_forward_flag:
  "store_inv s \<Longrightarrow> canGoForward_agrees s \<Longrightarrow> \<forall>a \<in> set acts. \<not> replaces a \<Longrightarrow>
     store_from s acts = Inr s' \<Longrightarrow> canGoForward_agrees s'"
proof (induction acts arbitrary: s)
  case Nil
  then show ?case by simp
next
  case (Cons a acts)
  from store_apply_inv [OF Cons.prems(1)] obtain s1
    where s1: "store_apply s a = Inr s1" "store_inv s1" by blast
  have "canGoForward_agrees s1"
    using store_apply_forward_flag [OF Cons.prems(1,2) _ s1(1)] Cons.prems(3) by simp
  with Cons.IH [of s1] s1 Cons.prems show ?case by simp
qed

lemma store_flags_without_replace:
  assumes "\<forall>a \<in> set acts. \<not> replaces a" "store_run acts = Inr s"
  shows "canGoForward s = (historyIndex s < int (length (history s)) - 1)
         \<and> canGoBack s = (historyIndex s > 0)
         \<and> - 1 \<le> historyIndex s \<and> historyIndex s < int (length (history s))"
proof -
  have "canGoForward_agrees store_initial"
    by (simp add: canGoForward_agrees_def store_initial_def)
  from store_from_forward_flag [OF store_inv_initial this assms(1), of s] assms(2)
  have "canGoForward_agrees s" by (simp add: store_run_def)
  moreover from store_run_inv [of acts] assms(2) have "store_inv s" by auto
  ultimately show ?thesis by (simp add: canGoForward_agrees_def store_inv_def)
qed

lemma nav_cursor_invariant:
  "- 1 \<le> currentIndex (nav_history (nav_run p acts))
   \<and> currentIndex (nav_history (nav_run p acts))
       < int (length (entries (nav_history (nav_run p acts))))
   \<and> nav_canGoBack (nav_run p acts) = (currentIndex (nav_history (nav_run p acts)) > 0)
   \<and> nav_canGoForward (nav_run p acts)
       = (currentIndex (nav_history (nav_run p acts))
            < int (length (entries (nav_history (nav_run p acts)))) - 1)"
  using nav_inv_run [of p acts]
  by (simp add: nav_inv_def nav_canGoBack_def nav_canGoForward_def)

section \<open>Concrete runs\<close>

lemmas str_defs = js_def trim_def isWhiteSpace_def hasHttpScheme_def startsWithNoCase_def
  asciiLower_def

lemmas nav_defs = nav_run_def nav_initial_def navigate_def goBack_def goForward_def
  nav_canGoBack_def nav_canGoForward_def nav_normaliseUrl_def nav_isValidUrl_def
  sampleParser_def slice0_def js_index_def Let_def

lemmas store_defs = store_run_def store_initial_def store_navigate_def store_goBack_def
  store_goForward_def newEntry_def slice0_def js_index_def Let_def

lemma trim_blank: "trim (js '' '') = []"
  by (simp add: str_defs)

lemma trim_example: "trim (js ''  example.com '') = js ''example.com''"
  by (simp add: str_defs)

lemma no_scheme_example: "\<not> hasHttpScheme (js ''example.com'')"
  by (simp add: str_defs)

lemma not_a_url_invalid: "\<not> nav_isValidUrl sampleParser (js ''not a url'')"
  by (simp add: nav_defs str_defs)

lemma d_valid: "nav_isValidUrl sampleParser (js ''https://d.example'')"
  by (simp add: nav_defs str_defs)

lemma d_normalised: "nav_normaliseUrl (js ''https://d.example'') = js ''https://d.example''"
  by (simp add: nav_defs str_defs)

lemma nav_run_a:
  "nav_run sampleParser [Navigate (js ''https://a.example'')]
   = \<lparr>nav_history = \<lparr>entries = [js ''https://a.example''], currentIndex = 0\<rparr>,
      nav_currentUrl = Some (js ''https://a.example''),
      nav_isLoading = True,
      nav_loadProgress = Fin 0,
      nav_error = None\<rparr>"
  by (simp add: nav_defs str_defs)

lemma nav_run_ab:
  "nav_run sampleParser
     [Navigate (js ''https://a.example''), Navigate (js ''https://b.example'')]
   = \<lparr>nav_history = \<lparr>entries = [js ''https://a.example'', js ''https://b.example''],
                       currentIndex = 1\<rparr>,
      nav_currentUrl = Some (js ''https://b.example''),
      nav_isLoading = True,
      nav_loadProgress = Fin 0,
      nav_error = None\<rparr>"
  by (simp add: nav_defs str_defs)

lemma nav_run_ab_back:
  "nav_run sampleParser
     [Navigate (js ''https://a.example''), Navigate (js ''https://b.example''), GoBack]
   = \<lparr>nav_history = \<lparr>entries = [js ''https://a.example'', js ''https://b.example''],
                       currentIndex = 0\<rparr>,
      nav_currentUrl = Some (js ''https://a.example''),
      nav_isLoading = True,
      nav_loadProgress = Fin 0,
      nav_error = None\<rparr>"
  by (simp add: nav_defs str_defs)

lemma nav_run_abc_back_back:
  "nav_run sampleParser
     [Navigate (js ''https://a.example''), Navigate (js ''https://b.example''),
      Navigate (js ''https://c.example''), GoBack, GoBack]
   = \<lparr>nav_history = \<lparr>entries = [js ''https://a.example'', js ''https://b.example'',
                                  js ''https://c.example''],
                       currentIndex = 0\<rparr>,
      nav_currentUrl = Some (js ''https://a.example''),
      nav_isLoading = True,
      nav_loadProgress = Fin 0,
      nav_error = None\<rparr>"
  by (simp add: nav_defs str_defs)

lemma store_run_ab:
  "store_run
     [StoreNavigate 1 (js ''https://a.example'') False,
      StoreNavigate 2 (js ''https://b.example'') False]
   = Inr \<lparr>currentUrl = js ''https://b.example'',
          history = [newEntry (js ''https://a.example'') 1, newEntry (js ''https://b.example'') 2],
          historyIndex = 1,
          isLoading = True,
          loadProgress = Fin 0,
          error = None,
          canGoBack = True,
          canGoForward = False\<rparr>"
  by (simp add: store_defs)

lemma store_run_abc_back_back:
  "store_run
     [StoreNavigate 1 (js ''https://a.example'') False,
      StoreNavigate 2 (js ''https://b.example'') False,
      StoreNavigate 3 (js ''https://c.example'') False, StoreGoBack, StoreGoBack]
   = Inr \<lparr>currentUrl = js ''https://a.example'',
          history = [newEntry (js ''https://a.example'') 1, newEntry (js ''https://b.example'') 2,
                     newEntry (js ''https://c.example'') 3],
          historyIndex = 0,
          isLoading = True,
          loadProgress = Fin 0,
          error = None,
          canGoBack = False,
          canGoForward = True\<rparr>"
  by (simp add: store_defs)

subsection \<open>Doubles\<close>

lemmas b64_eval = roundHalfEven_def Let_def power_int_minus overflowBound_def

lemma b64_40: "binary64 40 = Fin 40"
  using binary64_positive [of 5 40 5629499534213120] by (simp add: b64_eval)

lemma b64_minus_40: "binary64 (- 40) = Fin (- 40)"
  using binary64_negative [of 5 "- 40" "- 5629499534213120"] by (simp add: b64_eval)

lemma b64_101: "binary64 101 = Fin 101"
  using binary64_positive [of 6 101 7107243161944064] by (simp add: b64_eval)

lemma b64_960: "binary64 960 = Fin 960"
  using binary64_positive [of 9 960 8444249301319680] by (simp add: b64_eval)

lemma b64_760: "binary64 760 = Fin 760"
  using binary64_positive [of 9 760 6685030696878080] by (simp add: b64_eval)

text \<open>
  The quotients and products of \<open>calculateScale(141, 800, 393, 852)\<close>: 101 / 393 and
  760 / 852 are rounded, and so are 393 and 852 times the rounded 101 / 393.
\<close>

lemma b64_101_393: "binary64 (101 / 393) = Fin (4629654578772724 / 2 ^ 54)"
  using binary64_positive [of "- 2" "101 / 393" 4629654578772724] by (simp add: b64_eval)

lemma b64_760_852: "binary64 (760 / 852) = Fin (8034590884510744 / 2 ^ 53)"
  using binary64_positive [of "- 1" "760 / 852" 8034590884510744] by (simp add: b64_eval)

lemma b64_scaledWidth:
  "binary64 (393 * (4629654578772724 / 2 ^ 54)) = Fin (7107243161944065 / 2 ^ 46)"
  using binary64_positive [of 6 "393 * (4629654578772724 / 2 ^ 54)" 7107243161944065]
  by (simp add: b64_eval)

lemma b64_scaledHeight:
  "binary64 (852 * (4629654578772724 / 2 ^ 54)) = Fin (7704034572488986 / 2 ^ 45)"
  using binary64_positive [of 7 "852 * (4629654578772724 / 2 ^ 54)" 7704034572488986]
  by (simp add: b64_eval)

text \<open>
  The smallest positive double is \<open>2^-1074\<close> (5e-324); a quarter of it rounds to 0, and
  three quarters of it round to it.
\<close>

lemma b64_0: "binary64 0 = Fin 0"
  by (simp add: binary64_def)

lemma b64_1: "binary64 1 = Fin 1"
  using binary64_positive [of 0 1 4503599627370496] by (simp add: b64_eval)

lemma b64_smallest: "binary64 (1 / 2 ^ 1074) = Fin (1 / 2 ^ 1074)"
  using binary64_tiny [of "1 / 2 ^ 1074" 1] by (simp add: b64_eval)

lemma b64_quarter_of_smallest: "binary64 (1 / 2 ^ 1076) = Fin 0"
  using binary64_tiny [of "1 / 2 ^ 1076" 0] by (simp add: b64_eval)

lemma b64_3_1016: "binary64 (3 / 2 ^ 1016) = Fin (3 / 2 ^ 1016)"
  using binary64_positive [of "- 1015" "3 / 2 ^ 1016" 6755399441055744] by (simp add: b64_eval)

lemma b64_3_1076: "binary64 (3 / 2 ^ 1016 / 2 ^ 60) = Fin (1 / 2 ^ 1074)"
  using binary64_tiny [of "3 / 2 ^ 1016 / 2 ^ 60" 1] by (simp add: b64_eval)

lemma b64_1014: "binary64 (2 ^ 60 * (1 / 2 ^ 1074)) = Fin (1 / 2 ^ 1014)"
  using binary64_positive [of "- 1014" "2 ^ 60 * (1 / 2 ^ 1074)" 4503599627370496] by (simp add: b64_eval)

section \<open>The claims\<close>

subsection \<open>C1: cursor bounds and the two flags\<close>

text \<open>
  C1 asks that after every operation, from the initial state, \<open>-1 <= historyIndex < length\<close>,
  \<open>canGoBack = (historyIndex > 0)\<close> and \<open>canGoForward = (historyIndex < length - 1)\<close>.
  The composable computes both flags (\<open>nav_cursor_invariant\<close>), and the store keeps the
  bounds and \<open>canGoBack\<close> on every run (\<open>store_run_inv\<close>) and \<open>canGoForward\<close> on every run
  without \<open>replace\<close> (\<open>store_flags_without_replace\<close>). The store's \<open>navigate\<close> with
  \<open>replace\<close> sets \<open>canGoForward\<close> to false while entries after the cursor remain:
  after a, b, back, replace by c, the history is [c, b] with the cursor at 0 and
  \<open>canGoForward = false\<close>, and \<open>goForward\<close> still moves to index 1.
\<close>

theorem store_replace_loses_canGoForward:
  "store_run [StoreNavigate 1 (js ''https://a.example'') False,
              StoreNavigate 2 (js ''https://b.example'') False,
              StoreGoBack,
              StoreNavigate 3 (js ''https://c.example'') True]
   = Inr \<lparr>currentUrl = js ''https://c.example'',
          history = [newEntry (js ''https://c.example'') 3, newEntry (js ''https://b.example'') 2],
          historyIndex = 0,
          isLoading = True,
          loadProgress = Fin 0,
          error = None,
          canGoBack = False,
          canGoForward = False\<rparr>
   \<and> store_run [StoreNavigate 1 (js ''https://a.example'') False,
              StoreNavigate 2 (js ''https://b.example'') False,
              StoreGoBack,
              StoreNavigate 3 (js ''https://c.example'') True,
              StoreGoForward]
   = Inr \<lparr>currentUrl = js ''https://b.example'',
          history = [newEntry (js ''https://c.example'') 3, newEntry (js ''https://b.example'') 2],
          historyIndex = 1,
          isLoading = True,
          loadProgress = Fin 0,
          error = None,
          canGoBack = True,
          canGoForward = False\<rparr>"
  by (simp add: store_defs)

subsection \<open>C2: navigating to an invalid URL\<close>

text \<open>
  C2, as amended. In the composable, \<open>navigate\<close> with an input that fails validation
  leaves the history, the cursor, the current URL, \<open>isLoading\<close> and \<open>loadProgress\<close> as
  they were and sets \<open>error\<close> to the invalid-url error with its message; the error carries
  no \<open>recoverable\<close> field (it is \<open>undefined\<close>, not \<open>false\<close>). The store's \<open>navigate\<close> does
  not validate: it ends with the given string as current URL and no error.
\<close>

theorem navigate_invalid_keeps_history:
  "(\<not> nav_isValidUrl parseUrl u \<longrightarrow>
      nav_history (navigate parseUrl u n) = nav_history n
      \<and> nav_currentUrl (navigate parseUrl u n) = nav_currentUrl n
      \<and> nav_isLoading (navigate parseUrl u n) = nav_isLoading n
      \<and> nav_loadProgress (navigate parseUrl u n) = nav_loadProgress n
      \<and> nav_error (navigate parseUrl u n)
          = Some \<lparr>type = InvalidUrl,
                  message = js ''Please enter a valid URL (e.g., https://example.com)'',
                  error_url = None, error_timestamp = None, recoverable = None,
                  originalError = None\<rparr>)
   \<and> (\<forall>s'. store_navigate now v r s = Inr s' \<longrightarrow> currentUrl s' = v \<and> error s' = None)"
  by (auto simp: navigate_def invalidUrlError_def store_navigate_def Let_def split: if_splits)

theorem navigate_invalid_keeps_history_witness:
  "\<not> nav_isValidUrl sampleParser (js ''not a url'')
   \<and> navigate sampleParser (js ''not a url'')
        (nav_run sampleParser [Navigate (js ''https://a.example'')])
      = \<lparr>nav_history = \<lparr>entries = [js ''https://a.example''], currentIndex = 0\<rparr>,
         nav_currentUrl = Some (js ''https://a.example''),
         nav_isLoading = True,
         nav_loadProgress = Fin 0,
         nav_error = Some \<lparr>type = InvalidUrl,
                 message = js ''Please enter a valid URL (e.g., https://example.com)'',
                 error_url = None, error_timestamp = None, recoverable = None,
                 originalError = None\<rparr>\<rparr>
   \<and> store_navigate 7 (js ''not a url'') False store_initial
       = Inr \<lparr>currentUrl = js ''not a url'',
              history = [newEntry (js ''not a url'') 7],
              historyIndex = 0,
              isLoading = True,
              loadProgress = Fin 0,
              error = None,
              canGoBack = False,
              canGoForward = False\<rparr>"
  using not_a_url_invalid
    navigate_invalid_keeps_history [of sampleParser "js ''not a url''"
      "nav_run sampleParser [Navigate (js ''https://a.example'')]"
      7 "js ''not a url''" False store_initial]
  by (simp add: nav_run_a useNavigation.equality)
     (simp add: store_navigate_def store_initial_def slice0_def Let_def)

text \<open>
  C2 as stated fails: the error of the composable has no \<open>recoverable\<close> flag, and the
  store takes the invalid string into its history.
\<close>

theorem navigate_invalid_counterexample:
  "\<not> nav_isValidUrl sampleParser (js ''not a url'')
   \<and> nav_error (navigate sampleParser (js ''not a url'') nav_initial)
       = Some \<lparr>type = InvalidUrl,
               message = js ''Please enter a valid URL (e.g., https://example.com)'',
               error_url = None, error_timestamp = None, recoverable = None,
               originalError = None\<rparr>
   \<and> store_navigate 7 (js ''not a url'') False store_initial
       = Inr \<lparr>currentUrl = js ''not a url'',
              history = [newEntry (js ''not a url'') 7],
              historyIndex = 0,
              isLoading = True,
              loadProgress = Fin 0,
              error = None,
              canGoBack = False,
              canGoForward = False\<rparr>"
  using not_a_url_invalid
  by (simp add: navigate_def invalidUrlError_def store_navigate_def store_initial_def
        slice0_def Let_def)

subsection \<open>C3: navigating from the middle of the history\<close>

text \<open>
  C3. Navigating without \<open>replace\<close> (in the composable: to a valid URL) keeps the entries
  at positions \<open>0 .. historyIndex\<close>, appends the new entry and puts the cursor on the new
  last index. The witness is the example of the claim: from [a, b, c] with the cursor at
  0, navigating to d gives [a, d] with the cursor at 1.
\<close>

theorem navigate_truncates_forward_history:
  "(nav_isValidUrl parseUrl u \<and> - 1 \<le> currentIndex (nav_history n) \<longrightarrow>
      entries (nav_history (navigate parseUrl u n))
        = take (nat (currentIndex (nav_history n) + 1)) (entries (nav_history n))
            @ [nav_normaliseUrl u]
      \<and> currentIndex (nav_history (navigate parseUrl u n))
        = int (length (entries (nav_history (navigate parseUrl u n)))) - 1)
   \<and> (- 1 \<le> historyIndex s \<longrightarrow>
        (\<exists>s'. store_navigate now v False s = Inr s'
           \<and> history s' = take (nat (historyIndex s + 1)) (history s) @ [newEntry v now]
           \<and> historyIndex s' = int (length (history s')) - 1))"
  by (simp add: navigate_def store_navigate_def Let_def slice0_take)

theorem navigate_truncates_forward_history_witness:
  "nav_history (nav_run sampleParser
     [Navigate (js ''https://a.example''), Navigate (js ''https://b.example''),
      Navigate (js ''https://c.example''), GoBack, GoBack])
    = \<lparr>entries = [js ''https://a.example'', js ''https://b.example'', js ''https://c.example''],
       currentIndex = 0\<rparr>
   \<and> nav_history (navigate sampleParser (js ''https://d.example'') (nav_run sampleParser
     [Navigate (js ''https://a.example''), Navigate (js ''https://b.example''),
      Navigate (js ''https://c.example''), GoBack, GoBack]))
    = \<lparr>entries = [js ''https://a.example'', js ''https://d.example''], currentIndex = 1\<rparr>
   \<and> store_navigate 4 (js ''https://d.example'') False
        \<lparr>currentUrl = js ''https://a.example'',
          history = [newEntry (js ''https://a.example'') 1, newEntry (js ''https://b.example'') 2,
                     newEntry (js ''https://c.example'') 3],
          historyIndex = 0,
          isLoading = True,
          loadProgress = Fin 0,
          error = None,
          canGoBack = False,
          canGoForward = True\<rparr>
     = Inr \<lparr>currentUrl = js ''https://d.example'',
          history = [newEntry (js ''https://a.example'') 1, newEntry (js ''https://d.example'') 4],
          historyIndex = 1,
          isLoading = True,
          loadProgress = Fin 0,
          error = None,
          canGoBack = True,
          canGoForward = False\<rparr>"
  using navigate_truncates_forward_history [of sampleParser "js ''https://d.example''"
     "nav_run sampleParser
     [Navigate (js ''https://a.example''), Navigate (js ''https://b.example''),
      Navigate (js ''https://c.example''), GoBack, GoBack]"
     "\<lparr>currentUrl = js ''https://a.example'',
          history = [newEntry (js ''https://a.example'') 1, newEntry (js ''https://b.example'') 2,
                     newEntry (js ''https://c.example'') 3],
          historyIndex = 0,
          isLoading = True,
          loadProgress = Fin 0,
          error = None,
          canGoBack = False,
          canGoForward = True\<rparr>" 4 "js ''https://d.example''"]
  by (simp add: nav_run_abc_back_back d_valid d_normalised NavigationHistory.equality)
     (simp add: store_navigate_def slice0_def Let_def)

subsection \<open>C4: back, then forward\<close>

text \<open>
  C4, as amended. From every state reached from the initial one in which going back is
  possible (\<open>historyIndex > 0\<close>), \<open>goBack\<close> followed by \<open>goForward\<close> restores the current
  URL and the cursor (and leaves the history as it was), in the composable and in the
  store.
\<close>

theorem goBack_goForward_restores:
  "(nav_canGoBack (nav_run parseUrl acts) \<longrightarrow>
      nav_currentUrl (goForward (goBack (nav_run parseUrl acts)))
        = nav_currentUrl (nav_run parseUrl acts)
      \<and> nav_history (goForward (goBack (nav_run parseUrl acts)))
        = nav_history (nav_run parseUrl acts))
   \<and> (\<forall>s. store_run sacts = Inr s \<and> historyIndex s > 0 \<longrightarrow>
        (\<exists>s1 s2. store_goBack s = Inr s1 \<and> store_goForward s1 = Inr s2
           \<and> currentUrl s2 = currentUrl s
           \<and> historyIndex s2 = historyIndex s
           \<and> history s2 = history s))"
proof (intro conjI impI allI)
  assume b: "nav_canGoBack (nav_run parseUrl acts)"
  have i: "nav_inv (nav_run parseUrl acts)" by (rule nav_inv_run)
  from b i show "nav_currentUrl (goForward (goBack (nav_run parseUrl acts)))
        = nav_currentUrl (nav_run parseUrl acts)"
    by (auto simp: nav_inv_def goBack_def goForward_def nav_canGoBack_def nav_canGoForward_def
          Let_def)
  from b i show "nav_history (goForward (goBack (nav_run parseUrl acts)))
        = nav_history (nav_run parseUrl acts)"
    by (auto simp: nav_inv_def goBack_def goForward_def nav_canGoBack_def nav_canGoForward_def
          Let_def)
next
  fix s
  assume a: "store_run sacts = Inr s \<and> historyIndex s > 0"
  from store_run_inv [of sacts] a have i: "store_inv s" by auto
  from a i show "\<exists>s1 s2. store_goBack s = Inr s1 \<and> store_goForward s1 = Inr s2
           \<and> currentUrl s2 = currentUrl s
           \<and> historyIndex s2 = historyIndex s
           \<and> history s2 = history s"
    by (auto simp: store_inv_def store_goBack_def store_goForward_def js_index_def Let_def)
qed

theorem goBack_goForward_restores_witness:
  "nav_canGoBack (nav_run sampleParser
      [Navigate (js ''https://a.example''), Navigate (js ''https://b.example'')])
   \<and> nav_currentUrl (goForward (goBack (nav_run sampleParser
      [Navigate (js ''https://a.example''), Navigate (js ''https://b.example'')])))
      = Some (js ''https://b.example'')
   \<and> currentIndex (nav_history (goForward (goBack (nav_run sampleParser
      [Navigate (js ''https://a.example''), Navigate (js ''https://b.example'')])))) = 1
   \<and> (\<exists>s s1 s2. store_run [StoreNavigate 1 (js ''https://a.example'') False,
                    StoreNavigate 2 (js ''https://b.example'') False] = Inr s
         \<and> historyIndex s = 1
         \<and> store_goBack s = Inr s1 \<and> store_goForward s1 = Inr s2
         \<and> currentUrl s2 = js ''https://b.example'' \<and> historyIndex s2 = 1)"
  using goBack_goForward_restores [of sampleParser
      "[Navigate (js ''https://a.example''), Navigate (js ''https://b.example'')]"
      "[StoreNavigate 1 (js ''https://a.example'') False,
        StoreNavigate 2 (js ''https://b.example'') False]"]
  by (auto simp: nav_run_ab store_run_ab nav_canGoBack_def)

text \<open>
  C4 as stated fails where going back is not possible: after a, b, back the cursor is at
  0 on a; \<open>goBack\<close> does nothing there and \<open>goForward\<close> then moves to b at index 1.
\<close>

theorem goBack_goForward_counterexample:
  "currentIndex (nav_history (nav_run sampleParser
      [Navigate (js ''https://a.example''), Navigate (js ''https://b.example''), GoBack])) = 0
   \<and> nav_currentUrl (nav_run sampleParser
      [Navigate (js ''https://a.example''), Navigate (js ''https://b.example''), GoBack])
      = Some (js ''https://a.example'')
   \<and> currentIndex (nav_history (goForward (goBack (nav_run sampleParser
      [Navigate (js ''https://a.example''), Navigate (js ''https://b.example''), GoBack])))) = 1
   \<and> nav_currentUrl (goForward (goBack (nav_run sampleParser
      [Navigate (js ''https://a.example''), Navigate (js ''https://b.example''), GoBack])))
      = Some (js ''https://b.example'')
   \<and> js ''https://b.example'' \<noteq> js ''https://a.example''"
  by (simp add: nav_run_ab_back) (simp add: goBack_def goForward_def nav_canGoBack_def
        nav_canGoForward_def js_index_def js_def)

subsection \<open>C5: the degenerate cases of the scale calculation\<close>

text \<open>
  The guard belongs to \<open>calculateScale\<close>. The helper \<open>calculateScaleFactor\<close> of
  src/utils/dimensions.ts, which returns the factor alone, divides by a device
  dimension of zero.
\<close>

lemma calculateScaleFactor_divides_by_zero:
  "calculateScaleFactor rnd (Fin 0) deviceHeight containerWidth containerHeight pad
     = Inl DivisionByZero"
  by (simp add: calculateScaleFactor_def Let_def)

text \<open>
  C5. When the device width or height, or the container width or height minus twice the
  padding, is zero or negative, \<open>calculateScale\<close> returns scale 1, the device's own width
  and height and \<open>fitsContainer = false\<close>. It divides by zero on no input at all, and no
  operation of it can throw.
\<close>

theorem calculateScale_degenerate:
  "(jle deviceW (Fin 0) \<or> jle deviceH (Fin 0)
     \<or> jle (jsub rnd containerW
              (jmul rnd (case padding of None \<Rightarrow> Fin 20 | Some p \<Rightarrow> p) (Fin 2))) (Fin 0)
     \<or> jle (jsub rnd containerH
              (jmul rnd (case padding of None \<Rightarrow> Fin 20 | Some p \<Rightarrow> p) (Fin 2))) (Fin 0)
    \<longrightarrow> calculateScale rnd containerW containerH deviceW deviceH padding
          = Inr \<lparr>scale = Fin 1, scaledWidth = deviceW, scaledHeight = deviceH,
                 fitsContainer = False\<rparr>)
   \<and> calculateScale rnd containerW containerH deviceW deviceH padding \<noteq> Inl DivisionByZero"
proof (intro conjI impI)
  assume "jle deviceW (Fin 0) \<or> jle deviceH (Fin 0)
     \<or> jle (jsub rnd containerW
              (jmul rnd (case padding of None \<Rightarrow> Fin 20 | Some p \<Rightarrow> p) (Fin 2))) (Fin 0)
     \<or> jle (jsub rnd containerH
              (jmul rnd (case padding of None \<Rightarrow> Fin 20 | Some p \<Rightarrow> p) (Fin 2))) (Fin 0)"
  then show "calculateScale rnd containerW containerH deviceW deviceH padding
          = Inr \<lparr>scale = Fin 1, scaledWidth = deviceW, scaledHeight = deviceH,
                 fitsContainer = False\<rparr>"
    by (auto simp: calculateScale_def Let_def jle_jmax_zero)
next
  show "calculateScale rnd containerW containerH deviceW deviceH padding \<noteq> Inl DivisionByZero"
    by (auto simp: calculateScale_def Let_def jdiv_defined split: option.splits)
qed

theorem calculateScale_degenerate_witness:
  "jle (jsub binary64 (Fin 0) (jmul binary64 (Fin 20) (Fin 2))) (Fin 0)
   \<and> calculateScale binary64 (Fin 0) (Fin 0) (Fin 393) (Fin 852) None
       = Inr \<lparr>scale = Fin 1, scaledWidth = Fin 393, scaledHeight = Fin 852,
              fitsContainer = False\<rparr>
   \<and> calculateScale binary64 (Fin 0) (Fin 0) (Fin 393) (Fin 852) None \<noteq> Inl DivisionByZero"
  using calculateScale_degenerate [of "Fin 393" "Fin 852" binary64 "Fin 0" None "Fin 0"]
  by (simp add: b64_40 b64_minus_40)

subsection \<open>C6: load complete\<close>

text \<open>
  C6, as amended. In every state the composable's \<open>onLoadComplete\<close> sets
  \<open>isLoading = false\<close>, \<open>loadProgress = 100\<close> and \<open>error = null\<close>. The store's
  \<open>setLoadComplete\<close> sets \<open>isLoading = false\<close> and \<open>loadProgress = 100\<close> and leaves \<open>error\<close>
  as it was (the store clears it with \<open>clearError\<close>, \<open>reload\<close> or a navigation).
\<close>

theorem onLoadComplete_clears_error:
  "nav_isLoading (onLoadComplete n) = False
   \<and> nav_loadProgress (onLoadComplete n) = Fin 100
   \<and> nav_error (onLoadComplete n) = None
   \<and> (\<forall>s'. setLoadComplete t s = Inr s' \<longrightarrow>
         isLoading s' = False \<and> loadProgress s' = Fin 100 \<and> error s' = error s)"
  by (cases t)
     (auto simp: onLoadComplete_def setLoadComplete_def updateCurrentEntry_def Let_def
        split: if_splits)

theorem onLoadComplete_clears_error_witness:
  "nav_error (onLoadComplete (onLoadError
       \<lparr>type = Network, message = js ''Failed to load the page'',
        error_url = Some (js ''https://a.example''), error_timestamp = Some (Fin 5),
        recoverable = Some True, originalError = None\<rparr>
       (nav_run sampleParser [Navigate (js ''https://a.example'')]))) = None
   \<and> setLoadComplete None (clearError store_initial)
       = Inr (store_initial\<lparr>isLoading := False, loadProgress := Fin 100\<rparr>)
   \<and> error (store_initial\<lparr>isLoading := False, loadProgress := Fin 100\<rparr>) = None"
  using onLoadComplete_clears_error [of "onLoadError
       \<lparr>type = Network, message = js ''Failed to load the page'',
        error_url = Some (js ''https://a.example''), error_timestamp = Some (Fin 5),
        recoverable = Some True, originalError = None\<rparr>
       (nav_run sampleParser [Navigate (js ''https://a.example'')])" None
       "clearError store_initial"]
  by (simp add: setLoadComplete_def clearError_def store_initial_def)

text \<open>
  C6 as stated fails on the store: after a navigation and a load error, \<open>setLoadComplete\<close>
  leaves the error in place.
\<close>

theorem setLoadComplete_keeps_error_counterexample:
  "store_run [StoreNavigate 1 (js ''https://a.example'') False,
              SetLoadError \<lparr>type = Network, message = js ''Failed to load the page'',
                             error_url = Some (js ''https://a.example''),
                             error_timestamp = Some (Fin 5),
                             recoverable = Some True, originalError = None\<rparr>,
              SetLoadComplete None]
   = Inr \<lparr>currentUrl = js ''https://a.example'',
          history = [newEntry (js ''https://a.example'') 1],
          historyIndex = 0,
          isLoading = False,
          loadProgress = Fin 100,
          error = Some \<lparr>type = Network, message = js ''Failed to load the page'',
                         error_url = Some (js ''https://a.example''),
                         error_timestamp = Some (Fin 5),
                         recoverable = Some True, originalError = None\<rparr>,
          canGoBack = False,
          canGoForward = False\<rparr>"
  by (simp add: store_defs setLoadError_def setLoadComplete_def)

subsection \<open>C7: adding the scheme\<close>

text \<open>
  C7, as amended. For every string whose trimmed form does not start with \<open>http://\<close> or
  \<open>https://\<close> (in any case), the composable's \<open>normaliseUrl\<close> returns \<open>https://\<close> followed
  by the trimmed string, and so does \<open>normaliseUrl\<close> of utils/url.ts when the trimmed
  string is not empty; for a string that trims to the empty string the latter returns
  the empty string.
\<close>

theorem normaliseUrl_adds_https:
  "\<not> hasHttpScheme (trim s) \<Longrightarrow>
     nav_normaliseUrl s = js ''https://'' @ trim s
     \<and> normaliseUrl s = (if trim s = [] then [] else js ''https://'' @ trim s)"
  by (simp add: nav_normaliseUrl_def normaliseUrl_def Let_def)

theorem normaliseUrl_adds_https_witness:
  "\<not> hasHttpScheme (trim (js ''  example.com ''))
   \<and> nav_normaliseUrl (js ''  example.com '') = js ''https://example.com''
   \<and> normaliseUrl (js ''  example.com '') = js ''https://example.com''"
  using normaliseUrl_adds_https [of "js ''  example.com ''"]
  by (simp add: trim_example no_scheme_example) (simp add: js_def)

text \<open>
  C7 as stated fails for utils/url.ts on a non-empty string of white space: the result
  is the empty string, not \<open>https://\<close>.
\<close>

theorem normaliseUrl_blank_counterexample:
  "js '' '' \<noteq> [] \<and> \<not> hasHttpScheme (trim (js '' ''))
   \<and> normaliseUrl (js '' '') = []
   \<and> js ''https://'' @ trim (js '' '') \<noteq> []"
  by (simp add: normaliseUrl_def trim_blank) (simp add: js_def hasHttpScheme_def startsWithNoCase_def)

subsection \<open>C8: stop\<close>

text \<open>
  C8, as amended. In every state the composable's \<open>stop\<close> sets \<open>isLoading = false\<close> and
  \<open>loadProgress = 100\<close>; the store's \<open>stopLoading\<close> sets \<open>isLoading = false\<close> and leaves
  \<open>loadProgress\<close> as it was.
\<close>

theorem stop_ends_loading:
  "nav_isLoading (stop n) = False
   \<and> nav_loadProgress (stop n) = Fin 100
   \<and> isLoading (stopLoading s) = False
   \<and> loadProgress (stopLoading s) = loadProgress s"
  by (simp add: stop_def stopLoading_def)

theorem stop_ends_loading_witness:
  "nav_isLoading (stop (setProgress (Fin 40)
      (nav_run sampleParser [Navigate (js ''https://a.example'')]))) = False
   \<and> nav_loadProgress (stop (setProgress (Fin 40)
      (nav_run sampleParser [Navigate (js ''https://a.example'')]))) = Fin 100
   \<and> isLoading (stopLoading (setLoadProgress (Fin 40) store_initial)) = False
   \<and> loadProgress (stopLoading (setLoadProgress (Fin 40) store_initial)) = Fin 40"
  using stop_ends_loading [of "setProgress (Fin 40)
      (nav_run sampleParser [Navigate (js ''https://a.example'')])"
      "setLoadProgress (Fin 40) store_initial"]
  by (simp add: setLoadProgress_def jmax_def jmin_def)

text \<open>
  C8 as stated fails on the store: stopping a load that has reached 40 leaves the
  progress at 40.
\<close>

theorem stopLoading_keeps_progress_counterexample:
  "store_run [StoreNavigate 1 (js ''https://a.example'') False,
              SetLoadProgress (Fin 40),
              StopLoading]
   = Inr \<lparr>currentUrl = js ''https://a.example'',
          history = [newEntry (js ''https://a.example'') 1],
          historyIndex = 0,
          isLoading = False,
          loadProgress = Fin 40,
          error = None,
          canGoBack = False,
          canGoForward = False\<rparr>
   \<and> Fin 40 \<noteq> Fin 100"
  by (simp add: store_defs setLoadProgress_def stopLoading_def jmax_def jmin_def)

subsection \<open>C9: the scaled device and the available space\<close>

text \<open>
  C9, as amended. In doubles, for finite \<open>deviceW > 0\<close> and \<open>deviceH > 0\<close>, a finite
  available width and height (the container dimension minus twice the padding, as
  computed) of at most \<open>2^1023\<close>, and quotients of the available sizes by the device
  dimensions of at least \<open>2^-1022\<close> (they do not underflow; so the available sizes are
  positive), \<open>calculateScale\<close> returns a finite \<open>scale\<close> with \<open>0 < scale <= 1\<close>, and
  \<open>scaledWidth\<close> and \<open>scaledHeight\<close> are the rounded products \<open>deviceW * scale\<close> and
  \<open>deviceH * scale\<close>, at most the available width and height times \<open>1 + 2^-52\<close>: the
  scaled device fits up to one unit in the last place. For every rounding and every
  input, a finite \<open>scale\<close> is at most 1.
\<close>

theorem calculateScale_fits_up_to_rounding:
  assumes dev: "0 < deviceW" "0 < deviceH"
    and aw: "jsub binary64 containerW
               (jmul binary64 (case padding of None \<Rightarrow> Fin 20 | Some p \<Rightarrow> p) (Fin 2)) = Fin aw"
    and ah: "jsub binary64 containerH
               (jmul binary64 (case padding of None \<Rightarrow> Fin 20 | Some p \<Rightarrow> p) (Fin 2)) = Fin ah"
    and range: "aw \<le> 2 ^ 1023" "ah \<le> 2 ^ 1023"
    and quot: "1 / 2 ^ 1022 \<le> aw / deviceW" "1 / 2 ^ 1022 \<le> ah / deviceH"
  shows "(\<exists>s w h f.
           calculateScale binary64 containerW containerH (Fin deviceW) (Fin deviceH) padding
             = Inr \<lparr>scale = Fin s, scaledWidth = Fin w, scaledHeight = Fin h,
                    fitsContainer = f\<rparr>
           \<and> 0 < s \<and> s \<le> 1
           \<and> binary64 (deviceW * s) = Fin w \<and> binary64 (deviceH * s) = Fin h
           \<and> w \<le> aw * (1 + 1 / 2 ^ 52) \<and> h \<le> ah * (1 + 1 / 2 ^ 52))
         \<and> (\<forall>rnd cw ch dw dh pd r t.
               calculateScale rnd cw ch dw dh pd = Inr r \<and> scale r = Fin t \<longrightarrow> t \<le> 1)"
proof
  have mn: "(2::real) powi (- 1022) = 1 / 2 ^ 1022"
    by (simp add: power_int_minus field_simps)
  have mnpos: "0 < (2::real) powi (- 1022)" by simp
  have r: "2 powi (- 1022) \<le> aw / deviceW" "2 powi (- 1022) \<le> ah / deviceH"
    using quot by (simp_all only: mn)
  have "0 < aw / deviceW" using r(1) mnpos by linarith
  then have awpos: "0 < aw" using dev(1) by (simp add: zero_less_divide_iff)
  have "0 < ah / deviceH" using r(2) mnpos by linarith
  then have ahpos: "0 < ah" using dev(2) by (simp add: zero_less_divide_iff)
  from jsub_Fin [OF aw] obtain tw where tw: "binary64 tw = Fin aw" by blast
  from jsub_Fin [OF ah] obtain th where th: "binary64 th = Fin ah" by blast
  from binary64_quotient [OF r(1)] obtain yx where yx:
    "binary64 (aw / deviceW) = (if overflowBound \<le> yx then PosInf else Fin yx)"
    "2 powi (- 1022) \<le> yx" "yx \<le> aw / deviceW * (1 + 1 / 2 ^ 53)" by blast
  from binary64_quotient [OF r(2)] obtain yy where yy:
    "binary64 (ah / deviceH) = (if overflowBound \<le> yy then PosInf else Fin yy)"
    "2 powi (- 1022) \<le> yy" "yy \<le> ah / deviceH * (1 + 1 / 2 ^ 53)" by blast
  from scale_of_quotients [OF yx(1) yy(1) yx(2) yy(2)] obtain s where s:
    "jmin (jmin (binary64 (aw / deviceW)) (binary64 (ah / deviceH))) (Fin 1) = Fin s"
    "2 powi (- 1022) \<le> s" "s \<le> 1" "s \<le> yx" "s \<le> yy" by blast
  have spos: "0 < s" using s(2) mnpos by linarith
  have zw: "0 < deviceW * s" using dev(1) spos by simp
  have "s \<le> aw / deviceW * (1 + 1 / 2 ^ 53)" using s(4) yx(3) by linarith
  then have "deviceW * s \<le> deviceW * (aw / deviceW * (1 + 1 / 2 ^ 53))"
    by (rule mult_left_mono) (use dev(1) in simp)
  also have "\<dots> = aw * (1 + 1 / 2 ^ 53)" using dev(1) by simp
  finally have zw': "deviceW * s \<le> aw * (1 + 1 / 2 ^ 53)" .
  have zh: "0 < deviceH * s" using dev(2) spos by simp
  have "s \<le> ah / deviceH * (1 + 1 / 2 ^ 53)" using s(5) yy(3) by linarith
  then have "deviceH * s \<le> deviceH * (ah / deviceH * (1 + 1 / 2 ^ 53))"
    by (rule mult_left_mono) (use dev(2) in simp)
  also have "\<dots> = ah * (1 + 1 / 2 ^ 53)" using dev(2) by simp
  finally have zh': "deviceH * s \<le> ah * (1 + 1 / 2 ^ 53)" .
  from binary64_near [OF zw zw' tw awpos range(1)] obtain w where w:
    "binary64 (deviceW * s) = Fin w" "w \<le> aw * (1 + 1 / 2 ^ 52)" by blast
  from binary64_near [OF zh zh' th ahpos range(2)] obtain h where h:
    "binary64 (deviceH * s) = Fin h" "h \<le> ah * (1 + 1 / 2 ^ 52)" by blast
  have avw: "jmax (Fin 0) (Fin aw) = Fin aw" using awpos by (simp add: jmax_def)
  have avh: "jmax (Fin 0) (Fin ah) = Fin ah" using ahpos by (simp add: jmax_def)
  have dx: "jdiv binary64 (Fin aw) (Fin deviceW) = Some (binary64 (aw / deviceW))"
    using dev(1) by simp
  have dy: "jdiv binary64 (Fin ah) (Fin deviceH) = Some (binary64 (ah / deviceH))"
    using dev(2) by simp
  have "calculateScale binary64 containerW containerH (Fin deviceW) (Fin deviceH) padding
          = Inr \<lparr>scale = Fin s, scaledWidth = Fin w, scaledHeight = Fin h,
                 fitsContainer = (jge (binary64 (aw / deviceW)) (Fin 1)
                                  \<and> jge (binary64 (ah / deviceH)) (Fin 1))\<rparr>"
    unfolding calculateScale_def Let_def aw ah avw avh dx dy
    using dev awpos ahpos by (simp add: s(1) w(1) h(1))
  with spos s(3) w h
  show "\<exists>s w h f.
           calculateScale binary64 containerW containerH (Fin deviceW) (Fin deviceH) padding
             = Inr \<lparr>scale = Fin s, scaledWidth = Fin w, scaledHeight = Fin h,
                    fitsContainer = f\<rparr>
           \<and> 0 < s \<and> s \<le> 1
           \<and> binary64 (deviceW * s) = Fin w \<and> binary64 (deviceH * s) = Fin h
           \<and> w \<le> aw * (1 + 1 / 2 ^ 52) \<and> h \<le> ah * (1 + 1 / 2 ^ 52)"
    by blast
next
  show "\<forall>rnd cw ch dw dh pd r t.
          calculateScale rnd cw ch dw dh pd = Inr r \<and> scale r = Fin t \<longrightarrow> t \<le> 1"
    using scale_at_most_one by blast
qed

theorem calculateScale_fits_up_to_rounding_witness:
  "jsub binary64 (Fin 141) (jmul binary64 (Fin 20) (Fin 2)) = Fin 101
   \<and> jsub binary64 (Fin 800) (jmul binary64 (Fin 20) (Fin 2)) = Fin 760
   \<and> (\<exists>s w h f.
         calculateScale binary64 (Fin 141) (Fin 800) (Fin 393) (Fin 852) None
           = Inr \<lparr>scale = Fin s, scaledWidth = Fin w, scaledHeight = Fin h, fitsContainer = f\<rparr>
         \<and> 0 < s \<and> s \<le> 1
         \<and> binary64 (393 * s) = Fin w \<and> binary64 (852 * s) = Fin h
         \<and> w \<le> 101 * (1 + 1 / 2 ^ 52) \<and> h \<le> 760 * (1 + 1 / 2 ^ 52))
   \<and> jsub binary64 (Fin 1000) (jmul binary64 (Fin 20) (Fin 2)) = Fin 960
   \<and> (\<exists>s w h f.
         calculateScale binary64 (Fin 1000) (Fin 1000) (Fin 393) (Fin 852) None
           = Inr \<lparr>scale = Fin s, scaledWidth = Fin w, scaledHeight = Fin h, fitsContainer = f\<rparr>
         \<and> 0 < s \<and> s \<le> 1
         \<and> binary64 (393 * s) = Fin w \<and> binary64 (852 * s) = Fin h
         \<and> w \<le> 960 * (1 + 1 / 2 ^ 52) \<and> h \<le> 960 * (1 + 1 / 2 ^ 52))"
proof -
  have a: "jsub binary64 (Fin 141) (jmul binary64 (Fin 20) (Fin 2)) = Fin 101"
    and b: "jsub binary64 (Fin 800) (jmul binary64 (Fin 20) (Fin 2)) = Fin 760"
    and c: "jsub binary64 (Fin 1000) (jmul binary64 (Fin 20) (Fin 2)) = Fin 960"
    by (simp_all add: b64_40 b64_101 b64_760 b64_960)
  have a': "jsub binary64 (Fin 141)
              (jmul binary64 (case None of None \<Rightarrow> Fin 20 | Some p \<Rightarrow> p) (Fin 2)) = Fin 101"
    and b': "jsub binary64 (Fin 800)
              (jmul binary64 (case None of None \<Rightarrow> Fin 20 | Some p \<Rightarrow> p) (Fin 2)) = Fin 760"
    and c': "jsub binary64 (Fin 1000)
              (jmul binary64 (case None of None \<Rightarrow> Fin 20 | Some p \<Rightarrow> p) (Fin 2)) = Fin 960"
    using a b c by simp_all
  have d: "(0::real) < 393" "(0::real) < 852" by simp_all
  have lo: "1 / 2 ^ 1022 \<le> (101::real) / 393" "1 / 2 ^ 1022 \<le> (760::real) / 852"
    "1 / 2 ^ 1022 \<le> (960::real) / 393" "1 / 2 ^ 1022 \<le> (960::real) / 852"
    by simp_all
  have hi: "(101::real) \<le> 2 ^ 1023" "(760::real) \<le> 2 ^ 1023" "(960::real) \<le> 2 ^ 1023"
    by simp_all
  note small = calculateScale_fits_up_to_rounding
    [OF d a' b' hi(1) hi(2) lo(1) lo(2), THEN conjunct1]
  note large = calculateScale_fits_up_to_rounding
    [OF d c' c' hi(3) hi(3) lo(3) lo(4), THEN conjunct1]
  from a b c small large show ?thesis by (intro conjI)
qed

text \<open>
  C9 as stated fails in doubles. For a container of 141 by 800, the device of 393 by 852
  and the default padding, the available width is 101, \<open>scaleX\<close> is 101 / 393 rounded
  up, and 393 times it rounds to the double after 101 (101.00000000000001). When a
  quotient underflows more is lost: with no padding, a container \<open>2^-1074\<close> wide and a
  device 4 wide have \<open>scale = 0\<close>; a container \<open>3 * 2^-1016\<close> wide and a device \<open>2^60\<close>
  wide have \<open>scaledWidth = 2^-1014\<close>, a third more than the available width.
\<close>

theorem calculateScale_rounding_counterexample:
  "calculateScale binary64 (Fin 141) (Fin 800) (Fin 393) (Fin 852) None
     = Inr \<lparr>scale = Fin (4629654578772724 / 2 ^ 54),
            scaledWidth = Fin (7107243161944065 / 2 ^ 46),
            scaledHeight = Fin (7704034572488986 / 2 ^ 45),
            fitsContainer = False\<rparr>
   \<and> jsub binary64 (Fin 141) (jmul binary64 (Fin 20) (Fin 2)) = Fin 101
   \<and> (101::real) < 7107243161944065 / 2 ^ 46
   \<and> calculateScale binary64 (Fin (1 / 2 ^ 1074)) (Fin 1) (Fin 4) (Fin 1) (Some (Fin 0))
     = Inr \<lparr>scale = Fin 0, scaledWidth = Fin 0, scaledHeight = Fin 0, fitsContainer = False\<rparr>
   \<and> jsub binary64 (Fin (1 / 2 ^ 1074)) (jmul binary64 (Fin 0) (Fin 2)) = Fin (1 / 2 ^ 1074)
   \<and> jsub binary64 (Fin 1) (jmul binary64 (Fin 0) (Fin 2)) = Fin 1
   \<and> calculateScale binary64 (Fin (3 / 2 ^ 1016)) (Fin 1) (Fin (2 ^ 60)) (Fin 1) (Some (Fin 0))
     = Inr \<lparr>scale = Fin (1 / 2 ^ 1074), scaledWidth = Fin (1 / 2 ^ 1014),
            scaledHeight = Fin (1 / 2 ^ 1074), fitsContainer = False\<rparr>
   \<and> jsub binary64 (Fin (3 / 2 ^ 1016)) (jmul binary64 (Fin 0) (Fin 2)) = Fin (3 / 2 ^ 1016)
   \<and> (3 / 2 ^ 1016 :: real) * (1 + 1 / 2 ^ 52) < 1 / 2 ^ 1014"
proof -
  have ulp: "calculateScale binary64 (Fin 141) (Fin 800) (Fin 393) (Fin 852) None
     = Inr \<lparr>scale = Fin (4629654578772724 / 2 ^ 54),
            scaledWidth = Fin (7107243161944065 / 2 ^ 46),
            scaledHeight = Fin (7704034572488986 / 2 ^ 45),
            fitsContainer = False\<rparr>
   \<and> jsub binary64 (Fin 141) (jmul binary64 (Fin 20) (Fin 2)) = Fin 101
   \<and> (101::real) < 7107243161944065 / 2 ^ 46"
    using b64_101_393 b64_760_852 b64_scaledWidth b64_scaledHeight
    by (simp add: calculateScale_def Let_def b64_40 b64_101 b64_760 jmax_def jmin_def jge_def)
  have zero: "calculateScale binary64 (Fin (1 / 2 ^ 1074)) (Fin 1) (Fin 4) (Fin 1) (Some (Fin 0))
     = Inr \<lparr>scale = Fin 0, scaledWidth = Fin 0, scaledHeight = Fin 0, fitsContainer = False\<rparr>
   \<and> jsub binary64 (Fin (1 / 2 ^ 1074)) (jmul binary64 (Fin 0) (Fin 2)) = Fin (1 / 2 ^ 1074)
   \<and> jsub binary64 (Fin 1) (jmul binary64 (Fin 0) (Fin 2)) = Fin 1"
    using b64_smallest b64_quarter_of_smallest
    by (simp add: calculateScale_def Let_def b64_0 b64_1 jmax_def jmin_def jge_def)
  have third: "calculateScale binary64 (Fin (3 / 2 ^ 1016)) (Fin 1) (Fin (2 ^ 60)) (Fin 1) (Some (Fin 0))
     = Inr \<lparr>scale = Fin (1 / 2 ^ 1074), scaledWidth = Fin (1 / 2 ^ 1014),
            scaledHeight = Fin (1 / 2 ^ 1074), fitsContainer = False\<rparr>
   \<and> jsub binary64 (Fin (3 / 2 ^ 1016)) (jmul binary64 (Fin 0) (Fin 2)) = Fin (3 / 2 ^ 1016)
   \<and> (3 / 2 ^ 1016 :: real) * (1 + 1 / 2 ^ 52) < 1 / 2 ^ 1014"
    using b64_3_1016 b64_3_1076 b64_1014 b64_smallest
    by (simp add: calculateScale_def Let_def b64_0 b64_1 jmax_def jmin_def jge_def)
  from ulp zero third show ?thesis by (intro conjI) (elim conjE, assumption)+
qed

subsection \<open>C10: the displayed URL follows the cursor\<close>

text \<open>
  C10. After every sequence of actions of the composable from its initial state: when
  the cursor is at least 0 it is an index of the entries and the current URL is the
  entry there, and when the cursor is -1 the current URL is the empty string.
\<close>

theorem currentUrl_is_entry_at_cursor:
  "(0 \<le> currentIndex (nav_history (nav_run parseUrl acts)) \<longrightarrow>
      currentIndex (nav_history (nav_run parseUrl acts))
        < int (length (entries (nav_history (nav_run parseUrl acts))))
      \<and> nav_currentUrl (nav_run parseUrl acts)
        = Some (entries (nav_history (nav_run parseUrl acts))
                  ! nat (currentIndex (nav_history (nav_run parseUrl acts)))))
   \<and> (currentIndex (nav_history (nav_run parseUrl acts)) = - 1 \<longrightarrow>
        nav_currentUrl (nav_run parseUrl acts) = Some [])"
  using nav_inv_run [of parseUrl acts]
  by (auto simp: nav_inv_def js_index_def)

theorem currentUrl_is_entry_at_cursor_witness:
  "currentIndex (nav_history (nav_run sampleParser
      [Navigate (js ''https://a.example''), Navigate (js ''https://b.example''), GoBack])) = 0
   \<and> nav_currentUrl (nav_run sampleParser
      [Navigate (js ''https://a.example''), Navigate (js ''https://b.example''), GoBack])
      = Some (js ''https://a.example'')
   \<and> currentIndex (nav_history (nav_run sampleParser [Navigate (js ''not a url''), Clear])) = - 1
   \<and> nav_currentUrl (nav_run sampleParser [Navigate (js ''not a url''), Clear]) = Some []"
  using currentUrl_is_entry_at_cursor [of sampleParser
      "[Navigate (js ''https://a.example''), Navigate (js ''https://b.example''), GoBack]"]
    currentUrl_is_entry_at_cursor [of sampleParser "[Navigate (js ''not a url''), Clear]"]
  by (simp add: nav_run_ab_back) (simp add: nav_run_def clear_def)

end
